theory Spec2Isabelle
  imports Main "HOL-Library.Sublist" "HOL-Library.Product_Lexorder"
begin

section \<open>Times of day and the paging window\<close>

text \<open>
  A value of Python's \<open>datetime.time\<close>, as produced by \<open>strptime(..., "%H:%M").time()\<close> and by
  \<open>datetime.now(tz).time()\<close>: both are naive times (no zone attached), and two naive times
  are compared as the tuples \<open>(hour, minute, second, microsecond)\<close>.
\<close>

record time =
  hour :: nat
  minute :: nat
  second :: nat
  microsecond :: nat

definition time_tuple :: "time \<Rightarrow> nat \<times> nat \<times> nat \<times> nat" where
  "time_tuple t = (hour t, minute t, second t, microsecond t)"

definition time_le :: "time \<Rightarrow> time \<Rightarrow> bool" where
  "time_le a b = (time_tuple a \<le> time_tuple b)"

definition time_lt :: "time \<Rightarrow> time \<Rightarrow> bool" where
  "time_lt a b = (time_tuple a < time_tuple b)"

text \<open>The fields of a time of day are in range; \<open>datetime.time\<close> admits no other value.\<close>

definition valid_time :: "time \<Rightarrow> bool" where
  "valid_time t = (hour t < 24 \<and> minute t < 60 \<and> second t < 60 \<and> microsecond t < 1000000)"

text \<open>Microseconds elapsed since midnight: the chronological position of a time of day.\<close>

definition since_midnight :: "time \<Rightarrow> nat" where
  "since_midnight t = ((hour t * 60 + minute t) * 60 + second t) * 1000000 + microsecond t"


definition time_of_day :: "nat \<Rightarrow> nat \<Rightarrow> nat \<Rightarrow> nat \<Rightarrow> time" where
  "time_of_day h m s us = \<lparr>hour = h, minute = m, second = s, microsecond = us\<rparr>"

section \<open>Exceptions\<close>

text \<open>
  The exceptions the handler can meet. \<open>ParseError\<close> is \<open>xml.etree.ElementTree.ParseError\<close>;
  \<open>ClientError\<close> stands for whatever the HTTP client raises while posting to the paging
  service; \<open>ConnectionResetError\<close> is what \<open>writer.drain()\<close> raises once the peer is gone.
\<close>

datatype exn =
    ParseError
  | UnicodeDecodeError
  | AttributeError
  | TypeError
  | ValueError
  | IndexError
  | ClientError
  | ConnectionResetError

section \<open>Strings\<close>

text \<open>
  Text is a list of characters below U+0100, each \<open>char\<close> standing for one code point.
\<close>

text \<open>
  \<open>split_first sep s\<close> cuts \<open>s\<close> at the leftmost occurrence of \<open>sep\<close> and returns what is
  before and what is after it: \<open>s.split(sep, 1)\<close> when it has two parts, and
  \<open>sep in s\<close> when only the presence matters.
\<close>

fun split_first :: "string \<Rightarrow> string \<Rightarrow> (string \<times> string) option" where
  "split_first sep [] = (if sep = [] then Some ([], []) else None)"
| "split_first sep (c # cs) =
     (if prefix sep (c # cs) then Some ([], drop (length sep) (c # cs))
      else map_option (\<lambda>(a, b). (c # a, b)) (split_first sep cs))"

definition contains :: "string \<Rightarrow> string \<Rightarrow> bool" where
  "contains sub s = (split_first sub s \<noteq> None)"

text \<open>\<open>s.split(",")\<close>: every separator cuts, empty pieces are kept, and \<open>"".split(",")\<close> is \<open>[""]\<close>.\<close>

fun split_char :: "char \<Rightarrow> string \<Rightarrow> string list" where
  "split_char sep [] = [[]]"
| "split_char sep (c # cs) =
     (if c = sep then [] # split_char sep cs
      else (case split_char sep cs of [] \<Rightarrow> [[c]] | l # ls \<Rightarrow> (c # l) # ls))"

text \<open>The line boundaries of \<open>str.splitlines\<close> and the white space of \<open>str.split()\<close> below U+0100.\<close>

definition is_linebreak :: "char \<Rightarrow> bool" where
  "is_linebreak c = (of_char c \<in> {10, 11, 12, 13, 28, 29, 30, 133 :: nat})"

definition is_space :: "char \<Rightarrow> bool" where
  "is_space c = (of_char c \<in> {9, 10, 11, 12, 13, 28, 29, 30, 31, 32, 133, 160 :: nat})"

definition push_char :: "char \<Rightarrow> string list \<Rightarrow> string list" where
  "push_char c ls = (case ls of [] \<Rightarrow> [[c]] | l # ls' \<Rightarrow> (c # l) # ls')"

fun splitlines :: "string \<Rightarrow> string list" where
  "splitlines [] = []"
| "splitlines [c] = (if is_linebreak c then [[]] else [[c]])"
| "splitlines (c # d # cs) =
     (if of_char c = (13::nat) \<and> of_char d = (10::nat) then [] # splitlines cs
      else if is_linebreak c then [] # splitlines (d # cs)
      else push_char c (splitlines (d # cs)))"

text \<open>\<open>s.split()\<close>: runs of white space separate the words, none of which is empty.\<close>

fun split_words :: "string \<Rightarrow> string \<Rightarrow> string list" where
  "split_words word [] = (if word = [] then [] else [rev word])"
| "split_words word (c # cs) =
     (if is_space c then (if word = [] then split_words [] cs else rev word # split_words [] cs)
      else split_words (c # word) cs)"

definition str_split :: "string \<Rightarrow> string list" where
  "str_split s = split_words [] s"

text \<open>How an f-string renders a value that may be \<open>None\<close>.\<close>

definition fmt :: "string option \<Rightarrow> string" where
  "fmt v = (case v of None \<Rightarrow> ''None'' | Some s \<Rightarrow> s)"

section \<open>XML trees\<close>

text \<open>
  An \<open>xml.etree.ElementTree.Element\<close>: tag, attributes, the text before the first child
  (\<open>None\<close> when there is none) and the child elements in document order.
\<close>

datatype element =
  Element (tag: string) (attrib: "(string \<times> string) list") (elem_text: "string option")
    (children: "element list")

text \<open>\<open>Element.iter()\<close>: the element itself, then its subtree in document order.\<close>

fun iter :: "element \<Rightarrow> element list" where
  "iter (Element t a x cs) = Element t a x cs # concat (map iter cs)"

text \<open>
  \<open>root.find(".//name")\<close> walks \<open>root.iter(name)\<close>, skips \<open>root\<close> itself and returns the
  first element left, or \<open>None\<close>.
\<close>

definition descendants :: "element \<Rightarrow> element list" where
  "descendants e = concat (map iter (children e))"

definition find_descendant :: "string \<Rightarrow> element \<Rightarrow> element option" where
  "find_descendant name root = List.find (\<lambda>e. tag e = name) (descendants root)"

text \<open>
  The library functions that are not part of this program: \<open>bytes.decode('utf-8')\<close>
  (\<open>None\<close> for \<open>UnicodeDecodeError\<close>), \<open>ET.fromstring\<close> (\<open>None\<close> for \<open>ParseError\<close>), and
  the case mappings of the characters beyond ASCII. \<open>str.upper\<close> and \<open>str.lower\<close>
  replace each character by its full case mapping, one character or more, given here
  as the first character and the rest.
\<close>

record library =
  decode :: "string \<Rightarrow> string option"
  fromstring :: "string \<Rightarrow> element option"
  upper_beyond_ascii :: "char \<Rightarrow> char \<times> string"
  lower_beyond_ascii :: "char \<Rightarrow> char \<times> string"

section \<open>Letter case\<close>

text \<open>
  \<open>s.upper()\<close> and \<open>s.lower()\<close>. Among the ASCII characters only the 26 letters have a case
  mapping; what becomes of a character beyond ASCII is the library's business.
\<close>

definition upper_letters :: string where
  "upper_letters = ''ABCDEFGHIJKLMNOPQRSTUVWXYZ''"

definition lower_letters :: string where
  "lower_letters = ''abcdefghijklmnopqrstuvwxyz''"

definition is_ascii :: "char \<Rightarrow> bool" where
  "is_ascii c = (of_char c < (128::nat))"

definition lower_char :: "library \<Rightarrow> char \<Rightarrow> string" where
  "lower_char lib c =
     (case map_of (zip upper_letters lower_letters) c of
        Some d \<Rightarrow> [d]
      | None \<Rightarrow> if is_ascii c then [c] else (case lower_beyond_ascii lib c of (d, ds) \<Rightarrow> d # ds))"

definition upper_char :: "library \<Rightarrow> char \<Rightarrow> string" where
  "upper_char lib c =
     (case map_of (zip lower_letters upper_letters) c of
        Some d \<Rightarrow> [d]
      | None \<Rightarrow> if is_ascii c then [c] else (case upper_beyond_ascii lib c of (d, ds) \<Rightarrow> d # ds))"

definition str_lower :: "library \<Rightarrow> string \<Rightarrow> string" where
  "str_lower lib s = concat (map (lower_char lib) s)"

definition str_upper :: "library \<Rightarrow> string \<Rightarrow> string" where
  "str_upper lib s = concat (map (upper_char lib) s)"

section \<open>Configuration\<close>

text \<open>
  \<open>strptime(s, "%H:%M")\<close> matches \<open>s\<close> against \<open>(2[0-3]|[0-1]\d|\d):([0-5]\d|\d)\<close> and
  raises \<open>ValueError\<close> when the match fails or leaves text unconverted.
\<close>

definition digit_val :: "char \<Rightarrow> nat option" where
  "digit_val c = map_of (zip ''0123456789'' [0, 1, 2, 3, 4, 5, 6, 7, 8, 9]) c"

definition hour_field :: "string \<Rightarrow> nat option" where
  "hour_field s =
     (case map digit_val s of
        [Some a] \<Rightarrow> Some a
      | [Some a, Some b] \<Rightarrow> (if a * 10 + b < 24 then Some (a * 10 + b) else None)
      | _ \<Rightarrow> None)"

definition minute_field :: "string \<Rightarrow> nat option" where
  "minute_field s =
     (case map digit_val s of
        [Some a] \<Rightarrow> Some a
      | [Some a, Some b] \<Rightarrow> (if a < 6 then Some (a * 10 + b) else None)
      | _ \<Rightarrow> None)"

definition parse_time :: "string \<Rightarrow> exn + time" where
  "parse_time time_str =
     (case split_first '':'' time_str of
        None \<Rightarrow> Inl ValueError
      | Some (hs, ms) \<Rightarrow>
          (case hour_field hs of
             None \<Rightarrow> Inl ValueError
           | Some h \<Rightarrow>
               (case minute_field ms of
                  None \<Rightarrow> Inl ValueError
                | Some m \<Rightarrow> Inr (time_of_day h m 0 0))))"

record PagerDutyTrigger =
  api_token :: "string option"
  service_id :: "string option"
  from_email :: "string option"
  paging_start_time :: time
  paging_end_time :: time

definition PagerDutyTrigger_init ::
  "string option \<Rightarrow> string option \<Rightarrow> string option \<Rightarrow> string \<Rightarrow> string \<Rightarrow> exn + PagerDutyTrigger" where
  "PagerDutyTrigger_init token service email start_str end_str =
     (case parse_time start_str of
        Inl e \<Rightarrow> Inl e
      | Inr s \<Rightarrow>
          (case parse_time end_str of
             Inl e \<Rightarrow> Inl e
           | Inr e \<Rightarrow>
               Inr \<lparr>api_token = token, service_id = service, from_email = email,
                    paging_start_time = s, paging_end_time = e\<rparr>))"

record ProvisionISRHandler =
  pagerduty_trigger :: PagerDutyTrigger
  pagerduty_alert_types :: "string list"

text \<open>\<open>os.getenv(key, default)\<close> over an environment given as a partial map.\<close>

definition getenv :: "(string \<rightharpoonup> string) \<Rightarrow> string \<Rightarrow> string \<Rightarrow> string" where
  "getenv environ key dflt = (case environ key of None \<Rightarrow> dflt | Some v \<Rightarrow> v)"

definition ProvisionISRHandler_init ::
  "library \<Rightarrow> (string \<rightharpoonup> string) \<Rightarrow> exn + ProvisionISRHandler" where
  "ProvisionISRHandler_init lib environ =
     (case PagerDutyTrigger_init (environ ''PAGERDUTY_API_TOKEN'') (environ ''PAGERDUTY_SERVICE_ID'')
             (environ ''PAGERDUTY_FROM_EMAIL'')
             (getenv environ ''PAGING_START_TIME'' ''00:00'')
             (getenv environ ''PAGING_END_TIME'' ''23:59'') of
        Inl e \<Rightarrow> Inl e
      | Inr t \<Rightarrow>
          Inr \<lparr>pagerduty_trigger = t,
               pagerduty_alert_types =
                 split_char (CHR '','') (str_upper lib (getenv environ ''PAGERDUTY_ALERT_TYPES'' []))\<rparr>)"

section \<open>The XML document splitter\<close>

text \<open>
  \<open>re.findall(r'(<\?xml.*?<\/config>)', data, re.DOTALL)\<close>. The scan looks for the leftmost
  \<open><?xml\<close>; from there the lazy \<open>.*?\<close> (which, under \<open>DOTALL\<close>, accepts any character)
  stops at the first \<open></config>\<close> that follows; the match is reported and the scan goes
  on behind it. When no \<open></config>\<close> follows, no later start can match either.
\<close>

function split_xml_documents :: "string \<Rightarrow> string list" where
  "split_xml_documents data =
     (case split_first ''<?xml'' data of
        None \<Rightarrow> []
      | Some (skipped, rest) \<Rightarrow>
          (case split_first ''</config>'' rest of
             None \<Rightarrow> []
           | Some (body, rest') \<Rightarrow> (''<?xml'' @ body @ ''</config>'') # split_xml_documents rest'))"
  by pat_completeness auto
termination
proof (relation "measure length")
  show "wf (measure length)"
    by simp
next
  fix data :: string and x2 skipped rest x2a body rest'
  assume a: "split_first ''<?xml'' data = Some x2" "(skipped, rest) = x2"
    "split_first ''</config>'' rest = Some x2a" "(body, rest') = x2a"
  have shorter: "length b \<le> length s" if "split_first sep s = Some (p, b)" for sep s p b
    using that
  proof (induction s arbitrary: p)
    case Nil
    then show ?case
      by (simp split: if_splits)
  next
    case (Cons c cs)
    then show ?case
      by (fastforce split: if_splits)
  qed
  have strictly: "length b < length s" if "split_first sep s = Some (p, b)" "sep \<noteq> []" for sep s p b
    using that
  proof (induction s arbitrary: p)
    case Nil
    then show ?case
      by simp
  next
    case (Cons c cs)
    then show ?case
      by (fastforce split: if_splits)
  qed
  from a have "length rest' < length rest"
    using strictly [of "''</config>''" rest body rest'] by simp
  moreover from a have "length rest \<le> length data"
    using shorter [of "''<?xml''" data skipped rest] by simp
  ultimately show "(rest', data) \<in> measure length"
    by simp
qed

section \<open>The world outside the handler\<close>

text \<open>
  What the paging service receives in one POST: the fields of the JSON payload that vary
  from one incident to the next. The details are kept as the values the f-string
  interpolates rather than as the rendered text.
\<close>

datatype details =
    AlarmDetails "string option" "string option" "(string \<times> string option) list" time
  | HttpAlarmDetails "(string \<times> string option) list" element time

record incident =
  title :: string
  service :: "string option"
  urgency :: string
  incident_body :: details

text \<open>The answer to a POST: an HTTP status, or an exception raised by the client.\<close>

datatype post_result = Responded nat | Raised

text \<open>
  The state threaded through a connection's task. The wall clock is a sequence of
  readings, one consumed by each call of \<open>datetime.now\<close>; the paging service answers the
  n-th POST with \<open>network n\<close>; \<open>outbox\<close> lists the POSTs issued, \<open>sent\<close> the payloads that
  reached the peer, and \<open>closed\<close> tells whether \<open>writer.close()\<close> has run.
\<close>

record world =
  clock :: "nat \<Rightarrow> time"
  reads :: nat
  network :: "nat \<Rightarrow> post_result"
  outbox :: "incident list"
  peer_connected :: bool
  sent :: "string list"
  closed :: bool

type_synonym 'a action = "world \<Rightarrow> (exn + 'a) \<times> world"

definition get_current_israel_time :: "world \<Rightarrow> time \<times> world" where
  "get_current_israel_time w = (clock w (reads w), w\<lparr>reads := Suc (reads w)\<rparr>)"

section \<open>The incident dispatcher\<close>

definition is_paging_time :: "PagerDutyTrigger \<Rightarrow> world \<Rightarrow> bool \<times> world" where
  "is_paging_time t w =
     (let (now, w') = get_current_israel_time w in
      if time_le (paging_start_time t) (paging_end_time t)
      then (time_le (paging_start_time t) now \<and> time_lt now (paging_end_time t), w')
      else (time_le (paging_start_time t) now \<or> time_lt now (paging_end_time t), w'))"

definition trigger_incident :: "PagerDutyTrigger \<Rightarrow> string \<Rightarrow> details \<Rightarrow> string \<Rightarrow> unit action" where
  "trigger_incident t ttl dtl urg w =
     (let (paging, w1) = is_paging_time t w in
      if \<not> paging then (Inr (), w1)
      else
        (let payload = \<lparr>title = ttl, service = service_id t, urgency = urg, incident_body = dtl\<rparr>;
             w2 = w1\<lparr>outbox := outbox w1 @ [payload]\<rparr>
         in case network w1 (length (outbox w1)) of
              Responded status \<Rightarrow> (Inr (), w2)
            | Raised \<Rightarrow> (Inl ClientError, w2)))"

section \<open>The connection handler\<close>

definition send_response :: "string \<Rightarrow> unit action" where
  "send_response content w =
     (if peer_connected w then (Inr (), w\<lparr>sent := sent w @ [content]\<rparr>)
      else (Inl ConnectionResetError, w))"

definition identify_request_type :: "element \<Rightarrow> string" where
  "identify_request_type xml_root =
     (if find_descendant ''alarmStatusInfo'' xml_root \<noteq> None then ''alarm''
      else if find_descendant ''DataTime'' xml_root \<noteq> None
              \<and> find_descendant ''DeviceInfo'' xml_root \<noteq> None then ''heartbeat''
      else ''unknown'')"

text \<open>
  The dictionary \<open>{child.tag: child.text for child in device_info}\<close>: a repeated tag
  keeps its first position and takes the last text.
\<close>

fun dict_set :: "'k \<Rightarrow> 'v \<Rightarrow> ('k \<times> 'v) list \<Rightarrow> ('k \<times> 'v) list" where
  "dict_set k v [] = [(k, v)]"
| "dict_set k v ((k', v') # d) = (if k = k' then (k, v) # d else (k', v') # dict_set k v d)"

definition extract_device_info :: "element \<Rightarrow> (string \<times> string option) list" where
  "extract_device_info xml_root =
     (case find_descendant ''DeviceInfo'' xml_root of
        None \<Rightarrow> []
      | Some device_info \<Rightarrow>
          fold (\<lambda>child d. dict_set (tag child) (elem_text child) d) (children device_info) [])"

definition process_alarm ::
  "ProvisionISRHandler \<Rightarrow> library \<Rightarrow> string \<Rightarrow> string option \<Rightarrow> string option
     \<Rightarrow> (string \<times> string option) list \<Rightarrow> unit action" where
  "process_alarm h lib alarm_type alarm_id alarm_name device_info w =
     (let (current_time, w1) = get_current_israel_time w in
      if str_upper lib alarm_type \<in> set (pagerduty_alert_types h)
      then trigger_incident (pagerduty_trigger h)
             (''Provision ISR Alarm: '' @ alarm_type @ '' - '' @ fmt alarm_name)
             (AlarmDetails alarm_id alarm_name device_info current_time) ''high'' w1
      else (Inr (), w1))"

text \<open>
  The loop of \<open>handle_alarm\<close> only builds the coroutines; none runs before
  \<open>asyncio.gather\<close>. An alarm element without text raises in the loop, so nothing is
  run at all.
\<close>

fun alarm_tasks ::
  "ProvisionISRHandler \<Rightarrow> library \<Rightarrow> (string \<times> string option) list \<Rightarrow> element list
     \<Rightarrow> exn + unit action list" where
  "alarm_tasks h lib device_info [] = Inr []"
| "alarm_tasks h lib device_info (alarm # rest) =
     (case elem_text alarm of
        None \<Rightarrow> Inl AttributeError
      | Some txt \<Rightarrow>
          (case alarm_tasks h lib device_info rest of
             Inl e \<Rightarrow> Inl e
           | Inr tasks \<Rightarrow>
               Inr (if str_lower lib txt = ''true''
                    then process_alarm h lib (tag alarm) (map_of (attrib alarm) ''id'')
                           (map_of (attrib alarm) ''name'') device_info # tasks
                    else tasks)))"

text \<open>
  \<open>asyncio.gather\<close>: the tasks start in list order and each runs up to its POST before
  the next one starts; a task that raises does not stop the others, and the caller sees
  an exception when any task raised.
\<close>

fun gather :: "unit action list \<Rightarrow> unit action" where
  "gather [] w = (Inr (), w)"
| "gather (task # tasks) w =
     (let (r, w1) = task w; (rs, w2) = gather tasks w1
      in (case r of Inl e \<Rightarrow> Inl e | Inr u \<Rightarrow> rs, w2))"

definition handle_alarm :: "ProvisionISRHandler \<Rightarrow> library \<Rightarrow> element \<Rightarrow> unit action" where
  "handle_alarm h lib xml_root w =
     (case find_descendant ''alarmStatusInfo'' xml_root of
        None \<Rightarrow> (Inl TypeError, w)
      | Some alarm_info \<Rightarrow>
          (case alarm_tasks h lib (extract_device_info xml_root) (children alarm_info) of
             Inl e \<Rightarrow> (Inl e, w)
           | Inr tasks \<Rightarrow> gather tasks w))"

definition handle_heartbeat :: "element \<Rightarrow> unit action" where
  "handle_heartbeat xml_root w = (Inr (), w)"

fun process_documents :: "ProvisionISRHandler \<Rightarrow> library \<Rightarrow> string list \<Rightarrow> unit action" where
  "process_documents h lib [] w = (Inr (), w)"
| "process_documents h lib (xml_doc # docs) w =
     (case fromstring lib xml_doc of
        None \<Rightarrow> (Inl ParseError, w)
      | Some xml_root \<Rightarrow>
          (let request_type = identify_request_type xml_root;
               (r, w1) = (if request_type = ''heartbeat'' then handle_heartbeat xml_root w
                          else if request_type = ''alarm'' then handle_alarm h lib xml_root w
                          else (Inr (), w))
           in case r of Inl e \<Rightarrow> (Inl e, w1) | Inr u \<Rightarrow> process_documents h lib docs w1))"

subsection \<open>HTTP framing\<close>

definition crlf :: string where
  "crlf = [CHR 0x0D, CHR 0x0A]"

definition parse_http_post ::
  "library \<Rightarrow> string \<Rightarrow> exn + ((string \<times> string) list \<times> string)" where
  "parse_http_post lib data =
     (case decode lib data of
        None \<Rightarrow> Inl UnicodeDecodeError
      | Some request \<Rightarrow>
          (case split_first (crlf @ crlf) request of
             None \<Rightarrow> Inl ValueError
           | Some (head, body) \<Rightarrow>
               (let headers =
                      fold (\<lambda>line d. case split_first '': '' line of
                                        None \<Rightarrow> d
                                      | Some (k, v) \<Rightarrow> dict_set k v d)
                        (tl (splitlines head)) []
                in case splitlines request of
                     [] \<Rightarrow> Inl IndexError
                   | first_line # lines \<Rightarrow>
                       (case str_split first_line of
                          method # path # others \<Rightarrow> Inr (dict_set ''path'' path headers, body)
                        | _ \<Rightarrow> Inl IndexError))))"

definition handle_http_heartbeat :: "(string \<times> string) list \<Rightarrow> unit action" where
  "handle_http_heartbeat headers w = (Inr (), w)"

definition extract_http_device_info :: "element \<Rightarrow> exn + (string \<times> string option) list" where
  "extract_http_device_info xml_root =
     (case find_descendant ''mac'' xml_root of
        None \<Rightarrow> Inl AttributeError
      | Some mac \<Rightarrow>
          (case find_descendant ''sn'' xml_root of
             None \<Rightarrow> Inl AttributeError
           | Some sn \<Rightarrow>
               (case find_descendant ''deviceName'' xml_root of
                  None \<Rightarrow> Inl AttributeError
                | Some device_name \<Rightarrow>
                    Inr [(''mac'', elem_text mac), (''sn'', elem_text sn),
                         (''deviceName'', elem_text device_name)])))"

definition process_http_alarm ::
  "ProvisionISRHandler \<Rightarrow> library \<Rightarrow> string option \<Rightarrow> element \<Rightarrow> (string \<times> string option) list
     \<Rightarrow> unit action" where
  "process_http_alarm h lib smart_type xml_root device_info w =
     (let (current_time, w1) = get_current_israel_time w in
      case smart_type of
        None \<Rightarrow> (Inl AttributeError, w1)
      | Some st \<Rightarrow>
          if str_upper lib st \<in> set (pagerduty_alert_types h)
          then
            (let alarm_name = (case find_descendant ''name'' xml_root of
                                 Some n \<Rightarrow> fmt (elem_text n)
                               | None \<Rightarrow> ''Unknown'')
             in trigger_incident (pagerduty_trigger h)
                  (''Provision ISR HTTP Alarm: '' @ st @ '' - '' @ alarm_name)
                  (HttpAlarmDetails device_info xml_root current_time) ''high'' w1)
          else (Inr (), w1))"

text \<open>\<open>handle_http_alarm\<close> catches \<open>ParseError\<close> itself; any other exception leaves it.\<close>

definition handle_http_alarm :: "ProvisionISRHandler \<Rightarrow> library \<Rightarrow> string \<Rightarrow> unit action" where
  "handle_http_alarm h lib body w =
     (case fromstring lib body of
        None \<Rightarrow> (Inr (), w)
      | Some xml_root \<Rightarrow>
          (case find_descendant ''smartType'' xml_root of
             None \<Rightarrow> (Inl AttributeError, w)
           | Some st \<Rightarrow>
               (case extract_http_device_info xml_root of
                  Inl e \<Rightarrow> (Inl e, w)
                | Inr device_info \<Rightarrow>
                    process_http_alarm h lib (elem_text st) xml_root device_info w)))"

definition handle_http_post :: "ProvisionISRHandler \<Rightarrow> library \<Rightarrow> string \<Rightarrow> unit action" where
  "handle_http_post h lib data w =
     (case parse_http_post lib data of
        Inl e \<Rightarrow> (Inl e, w)
      | Inr (headers, body) \<Rightarrow>
          (let path = (case map_of headers ''path'' of None \<Rightarrow> [] | Some p \<Rightarrow> p) in
           if contains ''SendKeepalive'' path then handle_http_heartbeat headers w
           else if contains ''SendAlarmData'' path then handle_http_alarm h lib body w
           else send_response ''<error>Unknown HTTP POST request</error>'' w))"

subsection \<open>Dispatch\<close>

text \<open>The body of the \<open>try\<close> statement in \<open>process_request\<close>.\<close>

definition process_request_body :: "ProvisionISRHandler \<Rightarrow> library \<Rightarrow> string \<Rightarrow> unit action" where
  "process_request_body h lib data w =
     (if prefix ''POST'' data then handle_http_post h lib data w
      else
        (case decode lib data of
           None \<Rightarrow> (Inl UnicodeDecodeError, w)
         | Some txt \<Rightarrow>
             (case process_documents h lib (split_xml_documents txt) w of
                (Inl e, w1) \<Rightarrow> (Inl e, w1)
              | (Inr u, w1) \<Rightarrow> send_response ''<response>OK</response>'' w1)))"

text \<open>
  The two handlers: \<open>ParseError\<close> first, every other \<open>Exception\<close> second. An exception
  raised inside a handler leaves \<open>process_request\<close>.
\<close>

definition process_request :: "ProvisionISRHandler \<Rightarrow> library \<Rightarrow> string \<Rightarrow> unit action" where
  "process_request h lib data w =
     (case process_request_body h lib data w of
        (Inr u, w1) \<Rightarrow> (Inr u, w1)
      | (Inl ParseError, w1) \<Rightarrow> send_response ''<error>Invalid XML</error>'' w1
      | (Inl e, w1) \<Rightarrow> send_response ''<error>Internal Server Error</error>'' w1)"

text \<open>
  \<open>handle_client\<close>, given what \<open>reader.read(4096)\<close> returned. \<open>writer.close()\<close> is the
  statement after the \<open>if\<close>; it is not reached when \<open>process_request\<close> raises.
\<close>

definition handle_client :: "ProvisionISRHandler \<Rightarrow> library \<Rightarrow> string \<Rightarrow> unit action" where
  "handle_client h lib data w =
     (if data \<noteq> [] then
        (case process_request h lib data w of
           (Inl e, w1) \<Rightarrow> (Inl e, w1)
         | (Inr u, w1) \<Rightarrow> (Inr (), w1\<lparr>closed := True\<rparr>))
      else (Inr (), w\<lparr>closed := True\<rparr>))"

section \<open>Notions used to state the properties\<close>

text \<open>\<open>descendant d e\<close>: \<open>d\<close> lies strictly below \<open>e\<close> in the tree.\<close>

inductive descendant :: "element \<Rightarrow> element \<Rightarrow> bool" where
  child: "c \<in> set (children e) \<Longrightarrow> descendant c e"
| below: "c \<in> set (children e) \<Longrightarrow> descendant d c \<Longrightarrow> descendant d e"

definition has_descendant :: "string \<Rightarrow> element \<Rightarrow> bool" where
  "has_descendant name root = (\<exists>d. descendant d root \<and> tag d = name)"

text \<open>The four letters of \<open>true\<close>, each in either case.\<close>

definition true_in_any_casing :: "string \<Rightarrow> bool" where
  "true_in_any_casing s =
     (case s of
        [a, b, c, d] \<Rightarrow>
          a \<in> {CHR ''t'', CHR ''T''} \<and> b \<in> {CHR ''r'', CHR ''R''}
          \<and> c \<in> {CHR ''u'', CHR ''U''} \<and> d \<in> {CHR ''e'', CHR ''E''}
      | _ \<Rightarrow> False)"

text \<open>The positions at which \<open>pat\<close> occurs in \<open>s\<close>.\<close>

definition occurrences :: "string \<Rightarrow> string \<Rightarrow> nat list" where
  "occurrences pat s = filter (\<lambda>i. prefix pat (drop i s)) [0..<length s]"

text \<open>
  A document that starts with \<open><?xml\<close>, ends with \<open></config>\<close> and holds the text
  \<open></config>\<close> nowhere else.
\<close>

definition plain_config_document :: "string \<Rightarrow> bool" where
  "plain_config_document d =
     (prefix ''<?xml'' d \<and> suffix ''</config>'' d \<and> length (occurrences ''</config>'' d) = 1)"

section \<open>Sample inputs\<close>

definition xml_decl :: string where
  "xml_decl = ''<?xml version='' @ [CHR 0x22] @ ''1.0'' @ [CHR 0x22] @ ''?>''"

definition alarm_doc :: string where
  "alarm_doc = xml_decl @ ''<config><alarmStatusInfo><motionAlarm>TRUE</motionAlarm></alarmStatusInfo></config>''"

definition alarm_tree :: element where
  "alarm_tree =
     Element ''config'' [] None
       [Element ''alarmStatusInfo'' [] None [Element ''motionAlarm'' [] (Some ''TRUE'') []]]"

definition silent_doc :: string where
  "silent_doc = xml_decl @ ''<config><alarmStatusInfo><motionAlarm/></alarmStatusInfo></config>''"

definition silent_tree :: element where
  "silent_tree =
     Element ''config'' [] None
       [Element ''alarmStatusInfo'' [] None [Element ''motionAlarm'' [] None []]]"

definition heartbeat_doc :: string where
  "heartbeat_doc = xml_decl @ ''<config><DataTime>1</DataTime><DeviceInfo><SN>7</SN></DeviceInfo></config>''"

definition heartbeat_tree :: element where
  "heartbeat_tree =
     Element ''config'' [] None
       [Element ''DataTime'' [] (Some ''1'') [],
        Element ''DeviceInfo'' [] None [Element ''SN'' [] (Some ''7'') []]]"

definition nested_doc :: string where
  "nested_doc = xml_decl @ ''<config><config>x</config></config>''"

definition nested_tree :: element where
  "nested_tree = Element ''config'' [] None [Element ''config'' [] (Some ''x'') []]"

definition broken_doc :: string where
  "broken_doc = xml_decl @ ''<config><alarmStatusInfo></config>''"

text \<open>
  \<open>ET.fromstring\<close> on the sample documents. Every other string the examples hand to the
  parser (\<open>broken_doc\<close>, whose tags do not match, and a document cut short) is not
  well-formed.
\<close>

definition http_alarm_body :: string where
  "http_alarm_body = xml_decl @ ''<config><smartType>motionAlarm</smartType><mac>0a</mac><sn>7</sn><deviceName>gate</deviceName></config>''"

definition http_alarm_tree :: element where
  "http_alarm_tree =
     Element ''config'' [] None
       [Element ''smartType'' [] (Some ''motionAlarm'') [], Element ''mac'' [] (Some ''0a'') [],
        Element ''sn'' [] (Some ''7'') [], Element ''deviceName'' [] (Some ''gate'') []]"

definition sample_fromstring :: "string \<Rightarrow> element option" where
  "sample_fromstring s =
     map_of [(alarm_doc, alarm_tree), (silent_doc, silent_tree),
             (heartbeat_doc, heartbeat_tree), (nested_doc, nested_tree),
             (http_alarm_body, http_alarm_tree)] s"

definition sample_decode :: "string \<Rightarrow> string option" where
  "sample_decode data = (if list_all (\<lambda>c. of_char c < (128::nat)) data then Some data else None)"

text \<open>
  Python's case mappings of the characters from U+0080 to U+00FF, but for \<open>U+00B5\<close> and
  \<open>U+00FF\<close>, whose capitals lie beyond U+00FF and which no example uses.
\<close>

definition latin_small :: string where
  "latin_small =
     [CHR 0xE0, CHR 0xE1, CHR 0xE2, CHR 0xE3, CHR 0xE4, CHR 0xE5, CHR 0xE6, CHR 0xE7, CHR 0xE8,
      CHR 0xE9, CHR 0xEA, CHR 0xEB, CHR 0xEC, CHR 0xED, CHR 0xEE, CHR 0xEF, CHR 0xF0, CHR 0xF1,
      CHR 0xF2, CHR 0xF3, CHR 0xF4, CHR 0xF5, CHR 0xF6, CHR 0xF8, CHR 0xF9, CHR 0xFA, CHR 0xFB,
      CHR 0xFC, CHR 0xFD, CHR 0xFE]"

definition latin_capital :: string where
  "latin_capital =
     [CHR 0xC0, CHR 0xC1, CHR 0xC2, CHR 0xC3, CHR 0xC4, CHR 0xC5, CHR 0xC6, CHR 0xC7, CHR 0xC8,
      CHR 0xC9, CHR 0xCA, CHR 0xCB, CHR 0xCC, CHR 0xCD, CHR 0xCE, CHR 0xCF, CHR 0xD0, CHR 0xD1,
      CHR 0xD2, CHR 0xD3, CHR 0xD4, CHR 0xD5, CHR 0xD6, CHR 0xD8, CHR 0xD9, CHR 0xDA, CHR 0xDB,
      CHR 0xDC, CHR 0xDD, CHR 0xDE]"

definition sample_upper :: "char \<Rightarrow> char \<times> string" where
  "sample_upper c =
     (if c = CHR 0xDF then (CHR ''S'', ''S'')
      else (case map_of (zip latin_small latin_capital) c of Some d \<Rightarrow> (d, []) | None \<Rightarrow> (c, [])))"

definition sample_lower :: "char \<Rightarrow> char \<times> string" where
  "sample_lower c =
     (case map_of (zip latin_capital latin_small) c of Some d \<Rightarrow> (d, []) | None \<Rightarrow> (c, []))"

definition sample_library :: library where
  "sample_library =
     \<lparr>decode = sample_decode, fromstring = sample_fromstring,
      upper_beyond_ascii = sample_upper, lower_beyond_ascii = sample_lower\<rparr>"

definition office_hours :: PagerDutyTrigger where
  "office_hours =
     \<lparr>api_token = Some ''secret'', service_id = Some ''P1'', from_email = Some ''ops@example.org'',
      paging_start_time = time_of_day 8 0 0 0, paging_end_time = time_of_day 17 0 0 0\<rparr>"

definition sample_handler :: ProvisionISRHandler where
  "sample_handler =
     \<lparr>pagerduty_trigger = office_hours, pagerduty_alert_types = [''MOTIONALARM'', ''SENSORALARM'']\<rparr>"

text \<open>A world in which every clock reading is \<open>t\<close>, the peer listens and the service answers 201.\<close>

definition world_at :: "time \<Rightarrow> world" where
  "world_at t =
     \<lparr>clock = (\<lambda>n. t), reads = 0, network = (\<lambda>n. Responded 201), outbox = [],
      peer_connected = True, sent = [], closed = False\<rparr>"

definition noon :: time where
  "noon = time_of_day 12 0 0 0"

definition late_evening :: time where
  "late_evening = time_of_day 23 59 30 0"

text \<open>A clock that passes 08:00 between two consecutive readings.\<close>

definition world_at_opening :: world where
  "world_at_opening =
     (world_at noon)\<lparr>clock := (\<lambda>n. if n = 0 then time_of_day 7 59 59 999999 else time_of_day 8 0 0 0)\<rparr>"

definition keepalive_request :: string where
  "keepalive_request = ''POST /SendKeepalive HTTP/1.1'' @ crlf @ ''Host: 10.0.0.7'' @ crlf @ crlf"

text \<open>The handler built from an environment that sets none of the variables.\<close>

definition default_handler :: ProvisionISRHandler where
  "default_handler =
     \<lparr>pagerduty_trigger =
        \<lparr>api_token = None, service_id = None, from_email = None,
         paging_start_time = time_of_day 0 0 0 0, paging_end_time = time_of_day 23 59 0 0\<rparr>,
      pagerduty_alert_types = [[]]\<rparr>"

text \<open>A window that crosses midnight: 22:00 to 06:00.\<close>

definition night_shift :: PagerDutyTrigger where
  "night_shift =
     \<lparr>api_token = Some ''secret'', service_id = Some ''P1'', from_email = Some ''ops@example.org'',
      paging_start_time = time_of_day 22 0 0 0, paging_end_time = time_of_day 6 0 0 0\<rparr>"

text \<open>A document holding all three of the elements the classifier looks for.\<close>

definition busy_tree :: element where
  "busy_tree =
     Element ''config'' [] None
       [Element ''DataTime'' [] (Some ''1'') [],
        Element ''DeviceInfo'' [] None [Element ''alarmStatusInfo'' [] None []]]"

text \<open>What the splitter cuts out of \<open>nested_doc\<close>: the text up to the inner closing tag.\<close>

definition nested_doc_cut :: string where
  "nested_doc_cut = xml_decl @ ''<config><config>x</config>''"

text \<open>
  An action is quiet when it neither writes to the peer nor closes the connection nor
  changes whether the peer is there.
\<close>

definition quiet :: "unit action \<Rightarrow> bool" where
  "quiet act = (\<forall>w. sent (snd (act w)) = sent w
      \<and> peer_connected (snd (act w)) = peer_connected w \<and> closed (snd (act w)) = closed w)"

definition motion_alarm :: element where
  "motion_alarm = Element ''motionAlarm'' [] (Some ''TRUE'') []"

definition motion_alarm_info :: element where
  "motion_alarm_info = Element ''alarmStatusInfo'' [] None [motion_alarm]"

text \<open>The payload each handler of \<open>process_request\<close> writes for the exception it catches.\<close>

definition error_payload :: "exn \<Rightarrow> string" where
  "error_payload e = (if e = ParseError then ''<error>Invalid XML</error>''
     else ''<error>Internal Server Error</error>'')"

definition alarm_request :: string where
  "alarm_request =
     ''POST /SendAlarmData HTTP/1.1'' @ crlf @ ''Host: 10.0.0.7'' @ crlf @ crlf @ http_alarm_body"

text \<open>A handler whose allow-list was given in small letters with an accent, and such a type.\<close>

definition cafe_type :: string where
  "cafe_type = ''caf'' @ [CHR 0xE9]"

definition cafe_environ :: "string \<rightharpoonup> string" where
  "cafe_environ = [''PAGERDUTY_ALERT_TYPES'' \<mapsto> cafe_type]"

definition unknown_request :: string where
  "unknown_request = ''POST /Status HTTP/1.1'' @ crlf @ ''Host: 10.0.0.7'' @ crlf @ crlf"

definition world_without_peer :: world where
  "world_without_peer = (world_at noon)\<lparr>peer_connected := False\<rparr>"

section \<open>The time window gate\<close>

lemma time_le_chronological:
  "valid_time a \<Longrightarrow> valid_time b \<Longrightarrow> time_le a b \<longleftrightarrow> since_midnight a \<le> since_midnight b"
  unfolding time_le_def time_tuple_def valid_time_def since_midnight_def
  by (simp add: less_eq_prod_def less_prod_def) arith

lemma time_lt_chronological:
  "valid_time a \<Longrightarrow> valid_time b \<Longrightarrow> time_lt a b \<longleftrightarrow> since_midnight a < since_midnight b"
  unfolding time_lt_def time_tuple_def valid_time_def since_midnight_def
  by (simp add: less_eq_prod_def less_prod_def) arith

lemmas gate_eval =
  is_paging_time_def get_current_israel_time_def time_of_day_def time_le_def time_lt_def
  time_tuple_def

text \<open>
  C1. With start, end and the current reading of the clock placed on the day by their
  distance from midnight: when start is not after end the gate answers true exactly for
  start \<open>\<le>\<close> now \<open><\<close> end; when start is after end it answers true exactly for
  now \<open>\<ge>\<close> start or now \<open><\<close> end. The start is included and the end is not, both times.
\<close>

theorem is_paging_time_window:
  assumes "valid_time (paging_start_time t)" and "valid_time (paging_end_time t)"
    and "valid_time (clock w (reads w))"
  shows "fst (is_paging_time t w) \<longleftrightarrow>
    (if since_midnight (paging_start_time t) \<le> since_midnight (paging_end_time t)
     then since_midnight (paging_start_time t) \<le> since_midnight (clock w (reads w))
          \<and> since_midnight (clock w (reads w)) < since_midnight (paging_end_time t)
     else since_midnight (clock w (reads w)) \<ge> since_midnight (paging_start_time t)
          \<or> since_midnight (clock w (reads w)) < since_midnight (paging_end_time t))"
  using assms
  by (simp add: is_paging_time_def get_current_israel_time_def time_le_chronological
      time_lt_chronological)

theorem is_paging_time_window_witness:
  "valid_time (paging_start_time night_shift) \<and> valid_time (paging_end_time night_shift)
   \<and> valid_time (clock (world_at (time_of_day 6 0 0 0)) (reads (world_at (time_of_day 6 0 0 0))))
   \<and> since_midnight (paging_end_time night_shift) < since_midnight (paging_start_time night_shift)
   \<and> \<not> fst (is_paging_time night_shift (world_at (time_of_day 6 0 0 0)))"
  using is_paging_time_window [of night_shift "world_at (time_of_day 6 0 0 0)"]
  by (simp add: night_shift_def world_at_def valid_time_def since_midnight_def time_of_day_def)

section \<open>Configuration defaults\<close>

lemma upper_char_not_Nil: "upper_char lib c \<noteq> []"
  by (simp add: upper_char_def split: option.splits prod.splits)

lemma str_upper_Nil: "str_upper lib s = [] \<longleftrightarrow> s = []"
  by (cases s) (simp_all add: str_upper_def upper_char_not_Nil)

lemma init_default: "ProvisionISRHandler_init lib Map.empty = Inr default_handler"
  by (simp add: ProvisionISRHandler_init_def PagerDutyTrigger_init_def getenv_def parse_time_def
      hour_field_def minute_field_def digit_val_def str_upper_def default_handler_def)

text \<open>
  C8. The claim is that the window built from the default start and end lets every time
  of day through. The defaults are 00:00 and 23:59 and the end is exclusive, so the gate
  built from them answers false at 23:59:30.
\<close>

theorem default_window_closed_in_last_minute:
  "ProvisionISRHandler_init lib Map.empty = Inr default_handler
   \<and> valid_time late_evening
   \<and> \<not> fst (is_paging_time (pagerduty_trigger default_handler) (world_at late_evening))"
  using init_default
  by (simp add: default_handler_def world_at_def late_evening_def valid_time_def gate_eval)

text \<open>
  C10. When \<open>PAGERDUTY_ALERT_TYPES\<close> is unset or empty the allow-list is the list holding
  the empty string alone, and an alarm whose type name is not empty is not handed to
  \<open>trigger_incident\<close>: \<open>process_alarm\<close> returns having only read the clock for its log
  line.
\<close>

theorem empty_allow_list:
  assumes "environ ''PAGERDUTY_ALERT_TYPES'' = None \<or> environ ''PAGERDUTY_ALERT_TYPES'' = Some []"
    and "ProvisionISRHandler_init lib environ = Inr h"
  shows "pagerduty_alert_types h = [[]] \<and>
    (alarm_type \<noteq> [] \<longrightarrow>
       process_alarm h lib alarm_type alarm_id alarm_name device_info w
         = (Inr (), w\<lparr>reads := Suc (reads w)\<rparr>))"
proof -
  from assms(1) have "getenv environ ''PAGERDUTY_ALERT_TYPES'' [] = []"
    by (auto simp: getenv_def)
  with assms(2) have types: "pagerduty_alert_types h = [[]]"
    by (auto simp: ProvisionISRHandler_init_def str_upper_def split: sum.splits)
  then show ?thesis
    by (simp add: process_alarm_def get_current_israel_time_def str_upper_Nil)
qed

theorem empty_allow_list_witness:
  "(Map.empty ''PAGERDUTY_ALERT_TYPES'' = (None :: string option)
      \<or> Map.empty ''PAGERDUTY_ALERT_TYPES'' = Some [])
   \<and> ProvisionISRHandler_init sample_library Map.empty = Inr default_handler
   \<and> pagerduty_alert_types default_handler = [[]]
   \<and> ''motionAlarm'' \<noteq> []
   \<and> outbox (snd (process_alarm default_handler sample_library ''motionAlarm'' None None [] (world_at noon))) = []"
  using empty_allow_list [of Map.empty sample_library default_handler "''motionAlarm''" None None "[]"
      "world_at noon"]
    init_default
  by (simp add: world_at_def)

section \<open>The message classifier\<close>

lemma iter_unfold: "iter e = e # descendants e"
  by (cases e) (simp add: descendants_def)

lemma descendant_in_descendants: "descendant d e \<Longrightarrow> d \<in> set (descendants e)"
proof (induction rule: descendant.induct)
  case (child c e)
  have "c \<in> set (iter c)"
    by (simp add: iter_unfold [of c])
  with child show ?case
    by (auto simp: descendants_def)
next
  case (below c e d)
  then have "d \<in> set (iter c)"
    by (simp add: iter_unfold [of c])
  with below.hyps(1) show ?case
    by (auto simp: descendants_def)
qed

lemma descendants_are_descendant: "d \<in> set (descendants e) \<Longrightarrow> descendant d e"
proof (induction e arbitrary: d)
  case (Element t a x cs)
  from Element.prems obtain c where c: "c \<in> set cs" and d: "d \<in> set (iter c)"
    by (auto simp: descendants_def)
  from d have "d = c \<or> d \<in> set (descendants c)"
    by (simp add: iter_unfold [of c])
  then show ?case
  proof
    assume "d = c"
    with c show ?thesis
      by (simp add: descendant.child)
  next
    assume "d \<in> set (descendants c)"
    with c Element.IH have "descendant d c"
      by blast
    with c show ?thesis
      by (auto intro: descendant.below)
  qed
qed

lemma find_descendant_found:
  "find_descendant name root \<noteq> None \<longleftrightarrow> has_descendant name root"
  unfolding find_descendant_def has_descendant_def find_None_iff
  using descendant_in_descendants descendants_are_descendant by blast

text \<open>
  C4. The classifier answers \<open>alarm\<close> exactly when the document has an \<open>alarmStatusInfo\<close>
  descendant; failing that, \<open>heartbeat\<close> exactly when it has both a \<open>DataTime\<close> and a
  \<open>DeviceInfo\<close> descendant; failing that, \<open>unknown\<close>. A document with all three is an
  alarm.
\<close>

theorem identify_request_type_cases:
  "identify_request_type xml_root =
     (if has_descendant ''alarmStatusInfo'' xml_root then ''alarm''
      else if has_descendant ''DataTime'' xml_root \<and> has_descendant ''DeviceInfo'' xml_root
      then ''heartbeat''
      else ''unknown'')"
  unfolding identify_request_type_def find_descendant_found by (rule refl)

theorem identify_request_type_cases_witness:
  "has_descendant ''alarmStatusInfo'' busy_tree \<and> has_descendant ''DataTime'' busy_tree
   \<and> has_descendant ''DeviceInfo'' busy_tree \<and> identify_request_type busy_tree = ''alarm''
   \<and> \<not> has_descendant ''alarmStatusInfo'' heartbeat_tree
   \<and> identify_request_type heartbeat_tree = ''heartbeat''"
proof -
  have found: "has_descendant name root" if "find_descendant name root \<noteq> None" for name root
    using that find_descendant_found [of name root] by blast
  have missing: "\<not> has_descendant name root" if "find_descendant name root = None" for name root
    using that find_descendant_found [of name root] by blast
  have a: "has_descendant ''alarmStatusInfo'' busy_tree"
    by (rule found) (simp add: find_descendant_def descendants_def busy_tree_def)
  have b: "has_descendant ''DataTime'' busy_tree"
    by (rule found) (simp add: find_descendant_def descendants_def busy_tree_def)
  have c: "has_descendant ''DeviceInfo'' busy_tree"
    by (rule found) (simp add: find_descendant_def descendants_def busy_tree_def)
  have d: "\<not> has_descendant ''alarmStatusInfo'' heartbeat_tree"
    by (rule missing) (simp add: find_descendant_def descendants_def heartbeat_tree_def)
  have e: "has_descendant ''DataTime'' heartbeat_tree"
    by (rule found) (simp add: find_descendant_def descendants_def heartbeat_tree_def)
  have f: "has_descendant ''DeviceInfo'' heartbeat_tree"
    by (rule found) (simp add: find_descendant_def descendants_def heartbeat_tree_def)
  show ?thesis
    using identify_request_type_cases [of busy_tree] identify_request_type_cases [of heartbeat_tree]
      a b c d e f
    by simp
qed

section \<open>The document splitter\<close>

lemma split_first_at_prefix:
  "prefix sep s \<Longrightarrow> split_first sep s = Some ([], drop (length sep) s)"
  by (cases s) auto

lemma split_first_leftmost:
  assumes "\<forall>i<length a. \<not> prefix sep (drop i (a @ sep @ b))"
  shows "split_first sep (a @ sep @ b) = Some (a, b)"
  using assms
proof (induction a)
  case Nil
  then show ?case
    by (simp add: split_first_at_prefix)
next
  case (Cons c a)
  from Cons.prems have "\<not> prefix sep (c # a @ sep @ b)"
    by fastforce
  moreover from Cons.prems have "\<forall>i<length a. \<not> prefix sep (drop i (a @ sep @ b))"
    by fastforce
  ultimately show ?case
    using Cons.IH by simp
qed

lemma prefix_of_long_front:
  assumes "length xs \<le> length ys"
  shows "prefix xs (ys @ zs) \<longleftrightarrow> prefix xs ys"
proof
  assume "prefix xs (ys @ zs)"
  then obtain us where "ys @ zs = xs @ us"
    by (auto simp: prefix_def)
  then have "take (length xs) (ys @ zs) = xs"
    by simp
  with assms have "take (length xs) ys = xs"
    by simp
  then show "prefix xs ys"
    using take_is_prefix [of "length xs" ys] by simp
next
  assume "prefix xs ys"
  then show "prefix xs (ys @ zs)"
    by simp
qed

lemma single_occurrence:
  assumes "length (occurrences pat s) = 1" and "i < length s" and "j < length s"
    and "prefix pat (drop i s)" and "prefix pat (drop j s)"
  shows "i = j"
proof (rule ccontr)
  assume "i \<noteq> j"
  with assms(2-5) have "{i, j} \<subseteq> set (occurrences pat s)"
    by (simp add: occurrences_def)
  then have "card {i, j} \<le> card (set (occurrences pat s))"
    by (intro card_mono) simp_all
  also have "\<dots> \<le> length (occurrences pat s)"
    by (rule card_length)
  finally show False
    using assms(1) \<open>i \<noteq> j\<close> by simp
qed

lemma declaration_before_closing_tag:
  assumes "prefix ''<?xml'' (a @ ''</config>'')"
  shows "5 \<le> length a"
proof (rule ccontr)
  assume "\<not> 5 \<le> length a"
  then have "length a < 5"
    by simp
  then consider "length a = 0" | "length a = 1" | "length a = 2" | "length a = 3" | "length a = 4"
    by linarith
  then show False
    using assms
    by cases (auto simp: length_Suc_conv numeral_eq_Suc)
qed

lemma split_plain_document:
  assumes "plain_config_document d"
  shows "split_xml_documents (d @ rest) = d # split_xml_documents rest"
proof -
  let ?tag = "''</config>''"
  from assms obtain a where d: "d = a @ ?tag"
    by (auto simp: plain_config_document_def suffix_def)
  from assms have decl: "prefix ''<?xml'' d" and once: "length (occurrences ?tag d) = 1"
    by (simp_all add: plain_config_document_def)
  from decl d have "5 \<le> length a"
    using declaration_before_closing_tag by simp
  with decl d have "prefix ''<?xml'' a"
    using prefix_of_long_front [of "''<?xml''" a ?tag] by simp
  then obtain body where a: "a = ''<?xml'' @ body"
    by (auto simp: prefix_def)
  have first: "split_first ''<?xml'' (d @ rest) = Some ([], body @ ?tag @ rest)"
    using split_first_at_prefix [of "''<?xml''" "d @ rest"] by (simp add: d a)
  have last_occ: "prefix ?tag (drop (length a) d)"
    by (simp add: d)
  have "\<not> prefix ?tag (drop i (body @ ?tag @ rest))" if i: "i < length body" for i
  proof
    assume "prefix ?tag (drop i (body @ ?tag @ rest))"
    with i have "prefix ?tag (drop i (body @ ?tag) @ rest)"
      by simp
    moreover from i have "length ?tag \<le> length (drop i (body @ ?tag))"
      by simp
    ultimately have "prefix ?tag (drop i (body @ ?tag))"
      using prefix_of_long_front by blast
    moreover have "drop 5 d = body @ ?tag"
      by (simp add: d a)
    then have "drop (i + 5) d = drop i (body @ ?tag)"
      using drop_drop [of i 5 d] by simp
    ultimately have "prefix ?tag (drop (i + 5) d)"
      by simp
    with once last_occ have "i + 5 = length a"
      using single_occurrence [of ?tag d "i + 5" "length a"] i by (simp add: d a)
    with i show False
      by (simp add: a)
  qed
  then have second: "split_first ?tag (body @ ?tag @ rest) = Some (body, rest)"
    by (intro split_first_leftmost) blast
  have "split_xml_documents (d @ rest) = (''<?xml'' @ body @ ?tag) # split_xml_documents rest"
    by (subst split_xml_documents.simps) (simp only: first second option.case prod.case)
  also have "''<?xml'' @ body @ ?tag = d"
    by (simp only: d a append_assoc)
  finally show ?thesis .
qed

text \<open>
  C3, as the code has it. A buffer made of two documents, each starting with \<open><?xml\<close>,
  ending with \<open></config>\<close> and holding the text \<open></config>\<close> nowhere else, is split
  into exactly these two documents, in their order.
\<close>

theorem split_two_plain_documents:
  assumes "plain_config_document d1" and "plain_config_document d2"
  shows "split_xml_documents (d1 @ d2) = [d1, d2]"
proof -
  have "split_xml_documents [] = []"
    by simp
  then have "split_xml_documents (d2 @ []) = [d2]"
    using split_plain_document [OF assms(2), of "[]"] by simp
  then show ?thesis
    using split_plain_document [OF assms(1), of d2] by simp
qed

lemmas doc_eval =
  alarm_doc_def silent_doc_def heartbeat_doc_def nested_doc_def broken_doc_def nested_doc_cut_def
  http_alarm_body_def xml_decl_def

theorem split_two_plain_documents_witness:
  "plain_config_document alarm_doc \<and> plain_config_document heartbeat_doc
   \<and> split_xml_documents (alarm_doc @ heartbeat_doc) = [alarm_doc, heartbeat_doc]"
proof -
  have a: "plain_config_document alarm_doc"
    by (simp add: plain_config_document_def occurrences_def doc_eval suffix_def
        upt_rec [of _ "numeral n" for n])
  have b: "plain_config_document heartbeat_doc"
    by (simp add: plain_config_document_def occurrences_def doc_eval suffix_def
        upt_rec [of _ "numeral n" for n])
  show ?thesis
    using split_two_plain_documents [OF a b] a b by simp
qed

text \<open>
  C3, as stated, fails on a document whose root holds another \<open>config\<close> element: the lazy
  match ends at the inner closing tag, so the first piece returned is not the whole first
  document and does not parse.
\<close>

theorem split_stops_at_inner_closing_tag:
  "prefix ''<?xml'' nested_doc \<and> suffix ''</config>'' nested_doc
   \<and> sample_fromstring nested_doc = Some nested_tree
   \<and> prefix ''<?xml'' alarm_doc \<and> suffix ''</config>'' alarm_doc
   \<and> sample_fromstring alarm_doc = Some alarm_tree
   \<and> split_xml_documents (nested_doc @ alarm_doc) = [nested_doc_cut, alarm_doc]
   \<and> split_xml_documents (nested_doc @ alarm_doc) \<noteq> [nested_doc, alarm_doc]
   \<and> sample_fromstring nested_doc_cut = None"
  by (simp add: doc_eval sample_fromstring_def suffix_def)

section \<open>Dispatching an alarm\<close>

lemma lower_char_letters:
  "lower_char lib (CHR ''t'') = ''t''" "lower_char lib (CHR ''T'') = ''t''"
  "lower_char lib (CHR ''r'') = ''r''" "lower_char lib (CHR ''R'') = ''r''"
  "lower_char lib (CHR ''u'') = ''u''" "lower_char lib (CHR ''U'') = ''u''"
  "lower_char lib (CHR ''e'') = ''e''" "lower_char lib (CHR ''E'') = ''e''"
  by (simp_all add: lower_char_def upper_letters_def lower_letters_def is_ascii_def)

lemma str_lower_true:
  assumes "true_in_any_casing s"
  shows "str_lower lib s = ''true''"
proof -
  from assms obtain a b c d where s: "s = [a, b, c, d]"
    and letters: "a = CHR ''t'' \<or> a = CHR ''T''" "b = CHR ''r'' \<or> b = CHR ''R''"
      "c = CHR ''u'' \<or> c = CHR ''U''" "d = CHR ''e'' \<or> d = CHR ''E''"
    by (auto simp: true_in_any_casing_def split: list.splits)
  from letters have "lower_char lib a = ''t''" "lower_char lib b = ''r''"
      "lower_char lib c = ''u''" "lower_char lib d = ''e''"
    by (auto simp: lower_char_letters)
  then show ?thesis
    by (simp add: s str_lower_def)
qed

lemma is_paging_time_world: "snd (is_paging_time t w) = w\<lparr>reads := Suc (reads w)\<rparr>"
  by (simp add: is_paging_time_def get_current_israel_time_def)

lemma trigger_incident_outside:
  "\<not> fst (is_paging_time t w) \<Longrightarrow>
     trigger_incident t ttl dtl urg w = (Inr (), w\<lparr>reads := Suc (reads w)\<rparr>)"
  using is_paging_time_world [of t w]
  by (auto simp: trigger_incident_def split: prod.splits)

lemma trigger_incident_outbox:
  "outbox (snd (trigger_incident t ttl dtl urg w)) =
     (if fst (is_paging_time t w)
      then outbox w @ [\<lparr>title = ttl, service = service_id t, urgency = urg, incident_body = dtl\<rparr>]
      else outbox w)"
  using is_paging_time_world [of t w]
  by (auto simp: trigger_incident_def Let_def split: prod.splits post_result.splits)

lemma trigger_incident_reads:
  "reads (snd (trigger_incident t ttl dtl urg w)) = Suc (reads w)"
  using is_paging_time_world [of t w]
  by (auto simp: trigger_incident_def Let_def split: prod.splits post_result.splits)

lemma process_alarm_allowed:
  "str_upper lib alarm_type \<in> set (pagerduty_alert_types h) \<Longrightarrow>
     process_alarm h lib alarm_type alarm_id alarm_name device_info w =
       trigger_incident (pagerduty_trigger h)
         (''Provision ISR Alarm: '' @ alarm_type @ '' - '' @ fmt alarm_name)
         (AlarmDetails alarm_id alarm_name device_info (clock w (reads w))) ''high''
         (w\<lparr>reads := Suc (reads w)\<rparr>)"
  by (simp add: process_alarm_def get_current_israel_time_def)

text \<open>
  C2. An alarm message whose \<open>alarmStatusInfo\<close> element holds exactly one alarm element,
  with a status text that is \<open>true\<close> in some letter casing and a type whose upper-case
  form is on the allow-list: when the gate is open at the reading of the clock that
  \<open>trigger_incident\<close> takes, handling the message adds exactly one request to the
  outbox; when it is closed, none.
\<close>

theorem one_active_allowed_alarm:
  assumes "find_descendant ''alarmStatusInfo'' xml_root = Some alarm_info"
    and "children alarm_info = [alarm]"
    and "elem_text alarm = Some txt" and "true_in_any_casing txt"
    and "str_upper lib (tag alarm) \<in> set (pagerduty_alert_types h)"
  shows "outbox (snd (handle_alarm h lib xml_root w)) =
     (if fst (is_paging_time (pagerduty_trigger h) (w\<lparr>reads := Suc (reads w)\<rparr>))
      then outbox w @
        [\<lparr>title = ''Provision ISR Alarm: '' @ tag alarm @ '' - '' @ fmt (map_of (attrib alarm) ''name''),
          service = service_id (pagerduty_trigger h), urgency = ''high'',
          incident_body = AlarmDetails (map_of (attrib alarm) ''id'') (map_of (attrib alarm) ''name'')
            (extract_device_info xml_root) (clock w (reads w))\<rparr>]
      else outbox w)"
proof -
  let ?task = "process_alarm h lib (tag alarm) (map_of (attrib alarm) ''id'')
      (map_of (attrib alarm) ''name'') (extract_device_info xml_root)"
  from assms(3,4) have "alarm_tasks h lib (extract_device_info xml_root) [alarm] = Inr [?task]"
    by (simp add: str_lower_true)
  with assms(1,2) have "handle_alarm h lib xml_root w = gather [?task] w"
    by (simp add: handle_alarm_def)
  then have "outbox (snd (handle_alarm h lib xml_root w)) = outbox (snd (?task w))"
    by (simp split: prod.splits sum.splits)
  then show ?thesis
    using assms(5) by (simp add: process_alarm_allowed trigger_incident_outbox)
qed

lemmas tree_eval =
  alarm_tree_def silent_tree_def heartbeat_tree_def nested_tree_def busy_tree_def
  motion_alarm_def motion_alarm_info_def find_descendant_def descendants_def

lemmas text_eval =
  str_upper_def str_lower_def upper_char_def lower_char_def upper_letters_def lower_letters_def
  is_ascii_def
  fmt_def

lemmas world_eval =
  world_at_def world_at_opening_def noon_def late_evening_def sample_handler_def office_hours_def
  night_shift_def default_handler_def

theorem one_active_allowed_alarm_witness:
  "find_descendant ''alarmStatusInfo'' alarm_tree = Some motion_alarm_info
   \<and> children motion_alarm_info = [motion_alarm]
   \<and> elem_text motion_alarm = Some ''TRUE'' \<and> true_in_any_casing ''TRUE''
   \<and> str_upper sample_library (tag motion_alarm) \<in> set (pagerduty_alert_types sample_handler)
   \<and> fst (is_paging_time (pagerduty_trigger sample_handler) ((world_at noon)\<lparr>reads := 1\<rparr>))
   \<and> length (outbox (snd (handle_alarm sample_handler sample_library alarm_tree (world_at noon)))) = 1
   \<and> \<not> fst (is_paging_time (pagerduty_trigger sample_handler) ((world_at late_evening)\<lparr>reads := 1\<rparr>))
   \<and> outbox (snd (handle_alarm sample_handler sample_library alarm_tree (world_at late_evening))) = []"
proof -
  have 1: "find_descendant ''alarmStatusInfo'' alarm_tree = Some motion_alarm_info"
    by (simp add: tree_eval)
  have 2: "children motion_alarm_info = [motion_alarm]"
    by (simp add: tree_eval)
  have 3: "elem_text motion_alarm = Some ''TRUE''"
    by (simp add: tree_eval)
  have 4: "true_in_any_casing ''TRUE''"
    by (simp add: true_in_any_casing_def)
  have 5: "str_upper sample_library (tag motion_alarm) \<in> set (pagerduty_alert_types sample_handler)"
    by (simp add: tree_eval text_eval world_eval)
  have 6: "fst (is_paging_time (pagerduty_trigger sample_handler) ((world_at noon)\<lparr>reads := 1\<rparr>))"
    by (simp add: world_eval gate_eval)
  have 7: "\<not> fst (is_paging_time (pagerduty_trigger sample_handler) ((world_at late_evening)\<lparr>reads := 1\<rparr>))"
    by (simp add: world_eval gate_eval)
  have 8: "reads (world_at t) = 0" "outbox (world_at t) = []" for t
    by (simp_all add: world_at_def)
  show ?thesis
    using one_active_allowed_alarm [OF 1 2 3 4 5, of "world_at noon"]
      one_active_allowed_alarm [OF 1 2 3 4 5, of "world_at late_evening"] 1 2 3 4 5 6 7 8
    by simp
qed

section \<open>What reaches the peer\<close>

lemma quietD:
  "quiet act \<Longrightarrow> act w = (r, w1) \<Longrightarrow>
     sent w1 = sent w \<and> peer_connected w1 = peer_connected w \<and> closed w1 = closed w"
  unfolding quiet_def by (metis snd_conv)

lemma quiet_trigger_incident: "quiet (trigger_incident t ttl dtl urg)"
  by (auto simp: quiet_def trigger_incident_def is_paging_time_def get_current_israel_time_def
      Let_def split: post_result.splits)

lemma quiet_process_alarm: "quiet (process_alarm h lib alarm_type alarm_id alarm_name device_info)"
  using quiet_trigger_incident
  by (auto simp: quiet_def process_alarm_def get_current_israel_time_def)

lemma quiet_gather: "\<forall>task\<in>set tasks. quiet task \<Longrightarrow> quiet (gather tasks)"
proof (induction tasks)
  case Nil
  then show ?case
    by (simp add: quiet_def)
next
  case (Cons task tasks)
  then have t: "quiet task" and ts: "quiet (gather tasks)"
    by simp_all
  show ?case
    unfolding quiet_def
  proof
    fix w
    obtain r w1 where 1: "task w = (r, w1)"
      by (cases "task w")
    obtain rs w2 where 2: "gather tasks w1 = (rs, w2)"
      by (cases "gather tasks w1")
    from 1 2 have "snd (gather (task # tasks) w) = w2"
      by simp
    with quietD [OF t 1] quietD [OF ts 2]
    show "sent (snd (gather (task # tasks) w)) = sent w \<and>
         peer_connected (snd (gather (task # tasks) w)) = peer_connected w \<and>
         closed (snd (gather (task # tasks) w)) = closed w"
      by simp
  qed
qed

lemma alarm_tasks_quiet:
  "alarm_tasks h lib device_info alarms = Inr tasks \<Longrightarrow> \<forall>task\<in>set tasks. quiet task"
proof (induction alarms arbitrary: tasks)
  case Nil
  then show ?case
    by simp
next
  case (Cons alarm alarms)
  then show ?case
    by (auto simp: quiet_process_alarm split: option.splits sum.splits if_splits)
qed

lemma quiet_handle_alarm: "quiet (handle_alarm h lib xml_root)"
  unfolding quiet_def
proof
  fix w
  show "sent (snd (handle_alarm h lib xml_root w)) = sent w \<and>
         peer_connected (snd (handle_alarm h lib xml_root w)) = peer_connected w \<and>
         closed (snd (handle_alarm h lib xml_root w)) = closed w"
  proof (cases "find_descendant ''alarmStatusInfo'' xml_root")
    case None
    then show ?thesis
      by (simp add: handle_alarm_def)
  next
    case (Some alarm_info)
    show ?thesis
    proof (cases "alarm_tasks h lib (extract_device_info xml_root) (children alarm_info)")
      case (Inl e)
      with Some show ?thesis
        by (simp add: handle_alarm_def)
    next
      case (Inr tasks)
      then have "quiet (gather tasks)"
        using alarm_tasks_quiet quiet_gather by blast
      with Some Inr show ?thesis
        by (simp add: handle_alarm_def quiet_def)
    qed
  qed
qed

lemma quiet_process_documents: "quiet (process_documents h lib docs)"
  unfolding quiet_def
proof
  fix w
  show "sent (snd (process_documents h lib docs w)) = sent w \<and>
         peer_connected (snd (process_documents h lib docs w)) = peer_connected w \<and>
         closed (snd (process_documents h lib docs w)) = closed w"
  proof (induction docs arbitrary: w)
    case Nil
    then show ?case
      by simp
  next
    case (Cons xml_doc docs)
    show ?case
    proof (cases "fromstring lib xml_doc")
      case None
      then show ?thesis
        by simp
    next
      case (Some xml_root)
      let ?step = "if identify_request_type xml_root = ''heartbeat'' then handle_heartbeat xml_root w
        else if identify_request_type xml_root = ''alarm'' then handle_alarm h lib xml_root w
        else (Inr (), w)"
      obtain r w1 where step: "?step = (r, w1)"
        by (cases ?step)
      then have same: "sent w1 = sent w \<and> peer_connected w1 = peer_connected w \<and> closed w1 = closed w"
        using quietD [OF quiet_handle_alarm, of h lib xml_root w r w1]
        by (auto simp: handle_heartbeat_def split: if_splits)
      show ?thesis
      proof (cases r)
        case (Inl e)
        with Some step same show ?thesis
          by (simp add: Let_def)
      next
        case (Inr u)
        with Some step same Cons.IH [of w1] show ?thesis
          by (simp add: Let_def)
      qed
    qed
  qed
qed

lemma send_response_connected:
  "peer_connected w \<Longrightarrow> send_response content w = (Inr (), w\<lparr>sent := sent w @ [content]\<rparr>)"
  by (simp add: send_response_def)

lemma send_response_gone:
  "\<not> peer_connected w \<Longrightarrow> send_response content w = (Inl ConnectionResetError, w)"
  by (simp add: send_response_def)

lemma process_documents_append:
  "process_documents h lib pre w = (Inr (), w1) \<Longrightarrow>
     process_documents h lib (pre @ rest) w = process_documents h lib rest w1"
proof (induction pre arbitrary: w)
  case Nil
  then show ?case
    by simp
next
  case (Cons xml_doc pre)
  then show ?case
    by (auto simp: Let_def split: option.splits prod.splits sum.splits if_splits)
qed

lemma alarm_tasks_raise_on_missing_text:
  "alarm \<in> set alarms \<Longrightarrow> elem_text alarm = None \<Longrightarrow>
     alarm_tasks h lib device_info alarms = Inl AttributeError"
proof (induction alarms)
  case Nil
  then show ?case
    by simp
next
  case (Cons a alarms)
  then show ?case
    by (cases "elem_text a") auto
qed

lemma handle_alarm_raises_on_missing_text:
  assumes "find_descendant ''alarmStatusInfo'' xml_root = Some alarm_info"
    and "alarm \<in> set (children alarm_info)" and "elem_text alarm = None"
  shows "handle_alarm h lib xml_root w = (Inl AttributeError, w)"
  using assms alarm_tasks_raise_on_missing_text [of alarm "children alarm_info" h lib "extract_device_info xml_root"]
  by (simp add: handle_alarm_def)

lemma raw_request_stops_at:
  assumes "\<not> prefix ''POST'' data" and "decode lib data = Some txt"
    and "split_xml_documents txt = pre @ doc # post"
    and "process_documents h lib pre w = (Inr (), w1)"
    and "process_documents h lib [doc] w1 = (Inl e, w1)"
  shows "process_request_body h lib data w = (Inl e, w1)"
proof -
  from assms(5) have "process_documents h lib (doc # post) w1 = (Inl e, w1)"
    by (auto simp: Let_def split: option.splits prod.splits sum.splits if_splits)
  with assms(4) have "process_documents h lib (pre @ doc # post) w = (Inl e, w1)"
    by (simp add: process_documents_append)
  with assms(1-3) show ?thesis
    by (simp add: process_request_body_def)
qed

text \<open>
  C5, as the code has it. In raw framing, when the documents cut out of the buffer before
  \<open>doc\<close> are processed without an exception and \<open>doc\<close> fails to parse, the peer gets
  \<open><error>Invalid XML</error>\<close>, and the outbox holds what the earlier documents put
  there and nothing more; when \<open>doc\<close> is the first document, nothing is added to it.
\<close>

theorem parse_failure_response:
  assumes "\<not> prefix ''POST'' data" and "decode lib data = Some txt"
    and "split_xml_documents txt = pre @ doc # post"
    and "process_documents h lib pre w = (Inr (), w1)"
    and "fromstring lib doc = None" and "peer_connected w"
  shows "process_request h lib data w = (Inr (), w1\<lparr>sent := sent w @ [''<error>Invalid XML</error>'']\<rparr>)
    \<and> outbox (snd (process_request h lib data w)) = outbox w1
    \<and> (pre = [] \<longrightarrow> outbox (snd (process_request h lib data w)) = outbox w)"
proof -
  from assms(5) have "process_documents h lib [doc] w1 = (Inl ParseError, w1)"
    by simp
  then have body: "process_request_body h lib data w = (Inl ParseError, w1)"
    using assms(1-4) by (rule raw_request_stops_at [rotated 4])
  from assms(4,6) have w1: "peer_connected w1" "sent w1 = sent w"
    using quietD [OF quiet_process_documents, of h lib pre w "Inr ()" w1] by simp_all
  with body have 1: "process_request h lib data w =
      (Inr (), w1\<lparr>sent := sent w @ [''<error>Invalid XML</error>'']\<rparr>)"
    by (simp add: process_request_def send_response_connected)
  moreover from assms(4) have "pre = [] \<longrightarrow> w1 = w"
    by auto
  ultimately show ?thesis
    by auto
qed

text \<open>
  C9. In raw framing, when the documents before \<open>doc\<close> are processed without an
  exception and \<open>doc\<close> is an alarm message in which some alarm element has no text,
  \<open>handle_alarm\<close> raises before any task runs (the world is left as it was: no clock
  reading, no request) and the peer gets \<open><error>Internal Server Error</error>\<close> where
  the acknowledgment would have been.
\<close>

theorem alarm_without_text:
  assumes "\<not> prefix ''POST'' data" and "decode lib data = Some txt"
    and "split_xml_documents txt = pre @ doc # post"
    and "process_documents h lib pre w = (Inr (), w1)"
    and "fromstring lib doc = Some xml_root"
    and "find_descendant ''alarmStatusInfo'' xml_root = Some alarm_info"
    and "alarm \<in> set (children alarm_info)" and "elem_text alarm = None"
    and "peer_connected w"
  shows "handle_alarm h lib xml_root w1 = (Inl AttributeError, w1)
    \<and> process_request h lib data w =
        (Inr (), w1\<lparr>sent := sent w @ [''<error>Internal Server Error</error>'']\<rparr>)"
proof -
  have raised: "handle_alarm h lib xml_root w1 = (Inl AttributeError, w1)"
    using assms(6-8) by (rule handle_alarm_raises_on_missing_text)
  from assms(6) have "identify_request_type xml_root = ''alarm''"
    by (simp add: identify_request_type_def)
  with assms(5) raised have "process_documents h lib [doc] w1 = (Inl AttributeError, w1)"
    by simp
  then have body: "process_request_body h lib data w = (Inl AttributeError, w1)"
    using assms(1-4) by (rule raw_request_stops_at [rotated 4])
  from assms(4,9) have w1: "peer_connected w1" "sent w1 = sent w"
    using quietD [OF quiet_process_documents, of h lib pre w "Inr ()" w1] by simp_all
  with body have "process_request h lib data w =
      (Inr (), w1\<lparr>sent := sent w @ [''<error>Internal Server Error</error>'']\<rparr>)"
    by (simp add: process_request_def send_response_connected)
  with raised show ?thesis
    by simp
qed

section \<open>Where the window is checked\<close>

text \<open>
  C7, as the code has it. The window is checked in one place, \<open>trigger_incident\<close>.
  \<open>process_alarm\<close> reads the clock for its log line and hands every allow-listed event to
  \<open>trigger_incident\<close> without asking the gate; \<open>trigger_incident\<close> takes one reading of
  the clock for the gate and, when the gate answers false, returns with nothing changed
  but that reading: no request is made.
\<close>

theorem window_checked_by_dispatcher_only:
  "(str_upper lib alarm_type \<in> set (pagerduty_alert_types h) \<longrightarrow>
      process_alarm h lib alarm_type alarm_id alarm_name device_info w =
        trigger_incident (pagerduty_trigger h)
          (''Provision ISR Alarm: '' @ alarm_type @ '' - '' @ fmt alarm_name)
          (AlarmDetails alarm_id alarm_name device_info (clock w (reads w))) ''high''
          (w\<lparr>reads := Suc (reads w)\<rparr>))
   \<and> reads (snd (trigger_incident t ttl dtl urg w)) = Suc (reads w)
   \<and> (\<not> fst (is_paging_time t w) \<longrightarrow>
        trigger_incident t ttl dtl urg w = (Inr (), w\<lparr>reads := Suc (reads w)\<rparr>))"
  by (simp add: process_alarm_allowed trigger_incident_reads trigger_incident_outside)

theorem window_checked_by_dispatcher_only_witness:
  "str_upper sample_library ''motionAlarm'' \<in> set (pagerduty_alert_types sample_handler)
   \<and> \<not> fst (is_paging_time office_hours ((world_at late_evening)\<lparr>reads := 1\<rparr>))
   \<and> process_alarm sample_handler sample_library ''motionAlarm'' None None [] (world_at late_evening)
       = (Inr (), (world_at late_evening)\<lparr>reads := 2\<rparr>)"
proof -
  have 1: "str_upper sample_library ''motionAlarm'' \<in> set (pagerduty_alert_types sample_handler)"
    by (simp add: text_eval world_eval)
  have 2: "\<not> fst (is_paging_time office_hours ((world_at late_evening)\<lparr>reads := 1\<rparr>))"
    by (simp add: world_eval gate_eval)
  have 3: "pagerduty_trigger sample_handler = office_hours" "reads (world_at late_evening) = 0"
    by (simp_all add: sample_handler_def world_at_def)
  show ?thesis
    using window_checked_by_dispatcher_only [of sample_library "''motionAlarm''" sample_handler None None "[]"
        "world_at late_evening" office_hours
        "''Provision ISR Alarm: '' @ ''motionAlarm'' @ '' - '' @ fmt None"
        "AlarmDetails None None [] (clock (world_at late_evening) (reads (world_at late_evening)))"
        "''high''"]
      window_checked_by_dispatcher_only [of sample_library "''motionAlarm''" sample_handler None None "[]"
        "(world_at late_evening)\<lparr>reads := 1\<rparr>" office_hours
        "''Provision ISR Alarm: '' @ ''motionAlarm'' @ '' - '' @ fmt None"
        "AlarmDetails None None [] (clock (world_at late_evening) (reads (world_at late_evening)))"
        "''high''"]
      1 2 3
    by simp
qed

text \<open>
  C7, as stated, fails: \<open>process_alarm\<close> makes no window check of its own. With a window
  opening at 08:00 and a clock that reads 07:59:59.999999 in \<open>process_alarm\<close> and 08:00:00
  in \<open>trigger_incident\<close>, the gate is closed at the only time \<open>process_alarm\<close> sees, the
  event is forwarded all the same and a request is made; the clock is read twice in all,
  once for the time stamp and once for the gate.
\<close>

theorem alarm_forwarded_with_window_closed:
  "str_upper sample_library ''motionAlarm'' \<in> set (pagerduty_alert_types sample_handler)
   \<and> clock world_at_opening (reads world_at_opening) = time_of_day 7 59 59 999999
   \<and> \<not> fst (is_paging_time (pagerduty_trigger sample_handler) world_at_opening)
   \<and> length (outbox (snd (process_alarm sample_handler sample_library ''motionAlarm'' None None [] world_at_opening))) = 1
   \<and> reads (snd (process_alarm sample_handler sample_library ''motionAlarm'' None None [] world_at_opening)) = 2"
  by (simp add: process_alarm_def trigger_incident_def text_eval world_eval gate_eval Let_def)

section \<open>One connection\<close>

lemma quiet_process_http_alarm: "quiet (process_http_alarm h lib smart_type xml_root device_info)"
  unfolding quiet_def
proof
  fix w
  show "sent (snd (process_http_alarm h lib smart_type xml_root device_info w)) = sent w \<and>
    peer_connected (snd (process_http_alarm h lib smart_type xml_root device_info w)) = peer_connected w \<and>
    closed (snd (process_http_alarm h lib smart_type xml_root device_info w)) = closed w"
    using quiet_trigger_incident
    by (auto simp: quiet_def process_http_alarm_def get_current_israel_time_def Let_def
        split: option.splits)
qed

lemma quiet_handle_http_alarm: "quiet (handle_http_alarm h lib body)"
  using quiet_process_http_alarm
  by (auto simp: quiet_def handle_http_alarm_def split: option.splits sum.splits)

lemma handle_http_post_shape:
  assumes "handle_http_post h lib data w = (r, w1)"
  shows "peer_connected w1 = peer_connected w \<and> closed w1 = closed w
    \<and> (sent w1 = sent w \<or> r = Inr () \<and> (\<exists>x. sent w1 = sent w @ [x]))"
proof (cases "parse_http_post lib data")
  case (Inl e)
  with assms show ?thesis
    by (simp add: handle_http_post_def)
next
  case (Inr parsed)
  obtain headers body where parsed: "parsed = (headers, body)"
    by (cases parsed)
  let ?path = "case map_of headers ''path'' of None \<Rightarrow> [] | Some p \<Rightarrow> p"
  consider (keepalive) "contains ''SendKeepalive'' ?path"
    | (alarm) "\<not> contains ''SendKeepalive'' ?path" "contains ''SendAlarmData'' ?path"
    | (other) "\<not> contains ''SendKeepalive'' ?path" "\<not> contains ''SendAlarmData'' ?path"
    by blast
  then show ?thesis
  proof cases
    case keepalive
    with assms Inr parsed show ?thesis
      by (simp add: handle_http_post_def handle_http_heartbeat_def)
  next
    case alarm
    with assms Inr parsed have "handle_http_alarm h lib body w = (r, w1)"
      by (simp add: handle_http_post_def)
    then show ?thesis
      using quietD [OF quiet_handle_http_alarm] by blast
  next
    case other
    with assms Inr parsed
    have "send_response ''<error>Unknown HTTP POST request</error>'' w = (r, w1)"
      by (simp add: handle_http_post_def)
    then show ?thesis
      by (cases "peer_connected w") (auto simp: send_response_def)
  qed
qed

lemma raw_body_shape:
  assumes "\<not> prefix ''POST'' data" and "process_request_body h lib data w = (r, w1)"
  shows "peer_connected w1 = peer_connected w \<and> closed w1 = closed w
    \<and> (sent w1 = sent w \<and> (peer_connected w \<longrightarrow> r \<noteq> Inr ())
       \<or> peer_connected w \<and> r = Inr () \<and> sent w1 = sent w @ [''<response>OK</response>''])"
proof (cases "decode lib data")
  case None
  with assms show ?thesis
    by (auto simp: process_request_body_def)
next
  case (Some decoded)
  obtain rd wd where docs: "process_documents h lib (split_xml_documents decoded) w = (rd, wd)"
    by (cases "process_documents h lib (split_xml_documents decoded) w")
  note same = quietD [OF quiet_process_documents docs]
  show ?thesis
  proof (cases rd)
    case (Inl e)
    with assms Some docs same show ?thesis
      by (auto simp: process_request_body_def)
  next
    case (Inr u)
    with assms Some docs have "send_response ''<response>OK</response>'' wd = (r, w1)"
      by (simp add: process_request_body_def)
    with same show ?thesis
      by (cases "peer_connected w") (auto simp: send_response_def)
  qed
qed

lemma process_request_body_shape:
  assumes "process_request_body h lib data w = (r, w1)"
  shows "peer_connected w1 = peer_connected w \<and> closed w1 = closed w
    \<and> (sent w1 = sent w \<or> r = Inr () \<and> (\<exists>x. sent w1 = sent w @ [x]))"
proof (cases "prefix ''POST'' data")
  case True
  with assms have "handle_http_post h lib data w = (r, w1)"
    by (simp add: process_request_body_def)
  then show ?thesis
    by (rule handle_http_post_shape)
next
  case False
  then show ?thesis
    using raw_body_shape [OF False assms] by blast
qed

lemma process_request_unfold:
  "process_request h lib data w =
     (case process_request_body h lib data w of
        (Inr u, w1) \<Rightarrow> (Inr u, w1)
      | (Inl e, w1) \<Rightarrow> send_response (error_payload e) w1)"
  by (auto simp: process_request_def error_payload_def split: prod.splits sum.splits exn.splits)

lemma process_request_shape:
  assumes "process_request h lib data w = (r, w2)"
  shows "peer_connected w2 = peer_connected w \<and> closed w2 = closed w
    \<and> (peer_connected w \<longrightarrow> r = Inr ())
    \<and> (sent w2 = sent w \<or> (\<exists>x. sent w2 = sent w @ [x]))"
proof -
  obtain rb w1 where body: "process_request_body h lib data w = (rb, w1)"
    by (cases "process_request_body h lib data w")
  note shape = process_request_body_shape [OF body]
  show ?thesis
  proof (cases rb)
    case (Inr u)
    with assms body shape show ?thesis
      by (auto simp: process_request_unfold)
  next
    case (Inl e)
    with shape have same: "sent w1 = sent w"
      by auto
    from Inl assms body have "send_response (error_payload e) w1 = (r, w2)"
      by (simp add: process_request_unfold)
    with shape same show ?thesis
      by (cases "peer_connected w") (auto simp: send_response_def)
  qed
qed

lemma raw_request_shape:
  assumes "\<not> prefix ''POST'' data" and "peer_connected w"
    and "process_request h lib data w = (r, w2)"
  shows "\<exists>x\<in>{''<response>OK</response>'', ''<error>Invalid XML</error>'',
            ''<error>Internal Server Error</error>''}. sent w2 = sent w @ [x]"
proof -
  obtain rb w1 where body: "process_request_body h lib data w = (rb, w1)"
    by (cases "process_request_body h lib data w")
  note shape = raw_body_shape [OF assms(1) body]
  show ?thesis
  proof (cases rb)
    case (Inr u)
    with assms body shape show ?thesis
      by (auto simp: process_request_unfold)
  next
    case (Inl e)
    with shape assms(2) have same: "sent w1 = sent w" "peer_connected w1"
      by auto
    from Inl assms body have "send_response (error_payload e) w1 = (r, w2)"
      by (simp add: process_request_unfold)
    with same show ?thesis
      by (cases "e = ParseError") (auto simp: send_response_def error_payload_def)
  qed
qed

text \<open>
  What \<open>handle_client\<close> writes, whatever the input: at most one payload. An empty read is
  answered with nothing and the connection is closed. While the peer is connected,
  \<open>handle_client\<close> ends normally with the connection closed; a non-empty buffer that does
  not start with \<open>POST\<close> gets exactly one payload, the acknowledgment or one of the two
  error replies; an HTTP POST that parses and whose path holds neither \<open>SendKeepalive\<close>
  nor \<open>SendAlarmData\<close> gets exactly the unknown-request reply.
\<close>

lemma handle_client_payloads:
  "length (sent (snd (handle_client h lib data w))) \<le> Suc (length (sent w))
   \<and> (data = [] \<longrightarrow> handle_client h lib data w = (Inr (), w\<lparr>closed := True\<rparr>))
   \<and> (peer_connected w \<longrightarrow>
        fst (handle_client h lib data w) = Inr () \<and> closed (snd (handle_client h lib data w)))
   \<and> (peer_connected w \<and> data \<noteq> [] \<and> \<not> prefix ''POST'' data \<longrightarrow>
        (\<exists>x\<in>{''<response>OK</response>'', ''<error>Invalid XML</error>'',
              ''<error>Internal Server Error</error>''}.
           sent (snd (handle_client h lib data w)) = sent w @ [x]))
   \<and> (peer_connected w \<and> data \<noteq> [] \<and> prefix ''POST'' data
        \<and> parse_http_post lib data = Inr (headers, body)
        \<and> \<not> contains ''SendKeepalive'' (case map_of headers ''path'' of None \<Rightarrow> [] | Some p \<Rightarrow> p)
        \<and> \<not> contains ''SendAlarmData'' (case map_of headers ''path'' of None \<Rightarrow> [] | Some p \<Rightarrow> p)
        \<longrightarrow> sent (snd (handle_client h lib data w))
              = sent w @ [''<error>Unknown HTTP POST request</error>''])"
proof -
  obtain r w2 where req: "process_request h lib data w = (r, w2)"
    by (cases "process_request h lib data w")
  note shape = process_request_shape [OF req]
  have client: "handle_client h lib data w =
      (if data \<noteq> [] then (case r of Inl e \<Rightarrow> (Inl e, w2) | Inr u \<Rightarrow> (Inr (), w2\<lparr>closed := True\<rparr>))
       else (Inr (), w\<lparr>closed := True\<rparr>))"
    by (simp add: handle_client_def req)
  have 1: "length (sent (snd (handle_client h lib data w))) \<le> Suc (length (sent w))"
    using shape by (auto simp: client split: sum.splits)
  have 2: "data = [] \<longrightarrow> handle_client h lib data w = (Inr (), w\<lparr>closed := True\<rparr>)"
    by (simp add: handle_client_def)
  have 3: "peer_connected w \<longrightarrow>
      fst (handle_client h lib data w) = Inr () \<and> closed (snd (handle_client h lib data w))"
    using shape by (auto simp: client split: sum.splits)
  have 4: "peer_connected w \<and> data \<noteq> [] \<and> \<not> prefix ''POST'' data \<longrightarrow>
        (\<exists>x\<in>{''<response>OK</response>'', ''<error>Invalid XML</error>'',
              ''<error>Internal Server Error</error>''}.
           sent (snd (handle_client h lib data w)) = sent w @ [x])"
  proof
    assume a: "peer_connected w \<and> data \<noteq> [] \<and> \<not> prefix ''POST'' data"
    then have "\<exists>x\<in>{''<response>OK</response>'', ''<error>Invalid XML</error>'',
              ''<error>Internal Server Error</error>''}. sent w2 = sent w @ [x]"
      using raw_request_shape [OF _ _ req] by blast
    moreover from a shape have "r = Inr ()"
      by simp
    ultimately show "\<exists>x\<in>{''<response>OK</response>'', ''<error>Invalid XML</error>'',
              ''<error>Internal Server Error</error>''}.
           sent (snd (handle_client h lib data w)) = sent w @ [x]"
      using a by (simp add: client)
  qed
  have 5: "peer_connected w \<and> data \<noteq> [] \<and> prefix ''POST'' data
        \<and> parse_http_post lib data = Inr (headers, body)
        \<and> \<not> contains ''SendKeepalive'' (case map_of headers ''path'' of None \<Rightarrow> [] | Some p \<Rightarrow> p)
        \<and> \<not> contains ''SendAlarmData'' (case map_of headers ''path'' of None \<Rightarrow> [] | Some p \<Rightarrow> p)
        \<longrightarrow> sent (snd (handle_client h lib data w))
              = sent w @ [''<error>Unknown HTTP POST request</error>'']"
    by (simp add: handle_client_def process_request_def process_request_body_def
        handle_http_post_def send_response_def)
  from 1 2 3 4 5 show ?thesis
    by blast
qed

lemmas handler_eval =
  handle_client_def process_request_def process_request_body_def handle_http_post_def
  parse_http_post_def handle_http_heartbeat_def handle_http_alarm_def send_response_def
  identify_request_type_def handle_alarm_def handle_heartbeat_def extract_device_info_def
  process_alarm_def trigger_incident_def
  sample_library_def sample_decode_def sample_fromstring_def contains_def crlf_def
  is_linebreak_def is_space_def push_char_def str_split_def

text \<open>
  C6. The claim is that every connection gets exactly one response payload, an HTTP POST
  to \<open>SendKeepalive\<close> or \<open>SendAlarmData\<close> in particular. \<open>handle_http_post\<close> writes a
  payload in its last branch only: a keep-alive POST is handled and the connection closed
  with nothing written, and so is an alarm POST, although its incident has been posted.
  The other paths do answer: the unknown path with its error reply, the raw framing with
  the acknowledgment.
\<close>

theorem known_http_posts_get_no_payload:
  "prefix ''POST'' keepalive_request
   \<and> parse_http_post sample_library keepalive_request
       = Inr ([(''Host'', ''10.0.0.7''), (''path'', ''/SendKeepalive'')], [])
   \<and> handle_client sample_handler sample_library keepalive_request (world_at noon)
       = (Inr (), (world_at noon)\<lparr>closed := True\<rparr>)
   \<and> prefix ''POST'' alarm_request
   \<and> parse_http_post sample_library alarm_request
       = Inr ([(''Host'', ''10.0.0.7''), (''path'', ''/SendAlarmData'')], http_alarm_body)
   \<and> fromstring sample_library http_alarm_body = Some http_alarm_tree
   \<and> fst (handle_client sample_handler sample_library alarm_request (world_at noon)) = Inr ()
   \<and> sent (snd (handle_client sample_handler sample_library alarm_request (world_at noon))) = []
   \<and> length (outbox (snd (handle_client sample_handler sample_library alarm_request (world_at noon)))) = 1
   \<and> closed (snd (handle_client sample_handler sample_library alarm_request (world_at noon)))
   \<and> sent (snd (handle_client sample_handler sample_library unknown_request (world_at noon)))
       = [''<error>Unknown HTTP POST request</error>'']
   \<and> sent (snd (handle_client sample_handler sample_library alarm_doc (world_at noon)))
       = [''<response>OK</response>'']"
proof -
  have keepalive: "prefix ''POST'' keepalive_request"
    "parse_http_post sample_library keepalive_request
       = Inr ([(''Host'', ''10.0.0.7''), (''path'', ''/SendKeepalive'')], [])"
    "handle_client sample_handler sample_library keepalive_request (world_at noon)
       = (Inr (), (world_at noon)\<lparr>closed := True\<rparr>)"
    by (simp_all add: handler_eval keepalive_request_def world_at_def)
  have parsed: "prefix ''POST'' alarm_request"
    "parse_http_post sample_library alarm_request
       = Inr ([(''Host'', ''10.0.0.7''), (''path'', ''/SendAlarmData'')], http_alarm_body)"
    by (simp_all add: handler_eval alarm_request_def doc_eval)
  have body: "fromstring sample_library http_alarm_body = Some http_alarm_tree"
    by (simp add: sample_library_def sample_fromstring_def doc_eval)
  have tree: "sample_fromstring http_alarm_body = Some http_alarm_tree"
    by (simp add: sample_fromstring_def doc_eval)
  have paged: "handle_http_alarm sample_handler sample_library http_alarm_body (world_at noon)
      = (Inr (), (world_at noon)\<lparr>reads := 2, outbox :=
          [\<lparr>title = ''Provision ISR HTTP Alarm: motionAlarm - Unknown'', service = Some ''P1'',
            urgency = ''high'',
            incident_body = HttpAlarmDetails
              [(''mac'', Some ''0a''), (''sn'', Some ''7''), (''deviceName'', Some ''gate'')]
              http_alarm_tree noon\<rparr>]\<rparr>)"
    by (simp add: handle_http_alarm_def tree extract_http_device_info_def process_http_alarm_def
        trigger_incident_def http_alarm_tree_def find_descendant_def descendants_def
        text_eval world_eval gate_eval sample_library_def Let_def)
  have alarm: "handle_client sample_handler sample_library alarm_request (world_at noon)
      = (Inr (), (world_at noon)\<lparr>reads := 2, outbox :=
          [\<lparr>title = ''Provision ISR HTTP Alarm: motionAlarm - Unknown'', service = Some ''P1'',
            urgency = ''high'',
            incident_body = HttpAlarmDetails
              [(''mac'', Some ''0a''), (''sn'', Some ''7''), (''deviceName'', Some ''gate'')]
              http_alarm_tree noon\<rparr>], closed := True\<rparr>)"
    using parsed
    by (simp add: handle_client_def process_request_def process_request_body_def
        handle_http_post_def paged contains_def alarm_request_def)
  have unknown: "sent (snd (handle_client sample_handler sample_library unknown_request (world_at noon)))
       = [''<error>Unknown HTTP POST request</error>'']"
    by (simp add: handler_eval unknown_request_def world_at_def)
  have raw: "sent (snd (handle_client sample_handler sample_library alarm_doc (world_at noon)))
       = [''<response>OK</response>'']"
    by (simp add: handler_eval doc_eval tree_eval text_eval world_eval gate_eval Let_def)
  from keepalive parsed body alarm unknown raw show ?thesis
    by (simp add: world_at_def)
qed

text \<open>
  Two more paths on which the peer gets no reply. A read that returns no data is only
  logged. When the peer has gone, the write in the exception handler raises, the
  exception leaves \<open>process_request\<close> and \<open>handle_client\<close>, and \<open>writer.close()\<close> is not
  reached.
\<close>

lemma empty_read_gets_no_payload:
  "sent (snd (handle_client sample_handler sample_library [] (world_at noon))) = []
   \<and> closed (snd (handle_client sample_handler sample_library [] (world_at noon)))
   \<and> fst (handle_client sample_handler sample_library alarm_doc world_without_peer)
       = Inl ConnectionResetError
   \<and> \<not> closed (snd (handle_client sample_handler sample_library alarm_doc world_without_peer))"
  by (simp add: handler_eval doc_eval tree_eval text_eval world_eval gate_eval Let_def
      world_without_peer_def)

text \<open>
  A type written with an accented letter is matched against the allow-list by its capital
  form, as \<open>str.upper\<close> gives it.
\<close>

lemma accented_type_is_forwarded:
  "ProvisionISRHandler_init sample_library cafe_environ
     = Inr (default_handler\<lparr>pagerduty_alert_types := [''CAF'' @ [CHR 0xC9]]\<rparr>)
   \<and> length (outbox (snd (process_alarm (default_handler\<lparr>pagerduty_alert_types := [''CAF'' @ [CHR 0xC9]]\<rparr>)
        sample_library cafe_type None None [] (world_at noon)))) = 1"
  by (simp add: ProvisionISRHandler_init_def PagerDutyTrigger_init_def getenv_def parse_time_def
      hour_field_def minute_field_def digit_val_def cafe_environ_def cafe_type_def
      process_alarm_def trigger_incident_def sample_library_def sample_upper_def latin_small_def
      latin_capital_def text_eval world_eval gate_eval Let_def)

section \<open>Worked examples for the raw framing\<close>

theorem parse_failure_response_witness:
  "\<not> prefix ''POST'' (heartbeat_doc @ broken_doc)
   \<and> decode sample_library (heartbeat_doc @ broken_doc) = Some (heartbeat_doc @ broken_doc)
   \<and> split_xml_documents (heartbeat_doc @ broken_doc) = [heartbeat_doc] @ broken_doc # []
   \<and> process_documents sample_handler sample_library [heartbeat_doc] (world_at noon)
       = (Inr (), world_at noon)
   \<and> fromstring sample_library broken_doc = None \<and> peer_connected (world_at noon)
   \<and> process_request sample_handler sample_library (heartbeat_doc @ broken_doc) (world_at noon)
       = (Inr (), (world_at noon)\<lparr>sent := [''<error>Invalid XML</error>'']\<rparr>)"
proof -
  have 1: "\<not> prefix ''POST'' (heartbeat_doc @ broken_doc)"
    by (simp add: doc_eval)
  have 2: "decode sample_library (heartbeat_doc @ broken_doc) = Some (heartbeat_doc @ broken_doc)"
    by (simp add: sample_library_def sample_decode_def doc_eval)
  have 3: "split_xml_documents (heartbeat_doc @ broken_doc) = [heartbeat_doc] @ broken_doc # []"
    by (simp add: doc_eval)
  have 4: "process_documents sample_handler sample_library [heartbeat_doc] (world_at noon)
       = (Inr (), world_at noon)"
    by (simp add: handler_eval doc_eval tree_eval)
  have 5: "fromstring sample_library broken_doc = None"
    by (simp add: sample_library_def sample_fromstring_def doc_eval)
  have 6: "peer_connected (world_at noon)" "sent (world_at noon) = []"
    by (simp_all add: world_at_def)
  show ?thesis
    using parse_failure_response [OF 1 2 3 4 5 6(1), of] 1 2 3 4 5 6
    by simp
qed

text \<open>
  C5, as stated, fails. When an alarm document comes before the document that does not
  parse, the request for the alarm has been made by the time the parser fails: the peer
  gets \<open><error>Invalid XML</error>\<close> and the outbox holds one request.
\<close>

theorem request_issued_before_parse_failure:
  "\<not> prefix ''POST'' (alarm_doc @ broken_doc)
   \<and> split_xml_documents (alarm_doc @ broken_doc) = [alarm_doc, broken_doc]
   \<and> fromstring sample_library broken_doc = None
   \<and> sent (snd (process_request sample_handler sample_library (alarm_doc @ broken_doc) (world_at noon)))
       = [''<error>Invalid XML</error>'']
   \<and> length (outbox (snd (process_request sample_handler sample_library (alarm_doc @ broken_doc)
         (world_at noon)))) = 1"
  by (simp add: handler_eval doc_eval tree_eval text_eval world_eval gate_eval Let_def)

text \<open>A buffer that is not XML at all and holds no document for the splitter is acknowledged.\<close>

lemma unparsed_buffer_acknowledged:
  "split_xml_documents ''<config><alarmStatusInfo>'' = []
   \<and> process_request sample_handler sample_library ''<config><alarmStatusInfo>'' (world_at noon)
       = (Inr (), (world_at noon)\<lparr>sent := [''<response>OK</response>'']\<rparr>)"
  by (simp add: handler_eval world_at_def)

theorem alarm_without_text_witness:
  "\<not> prefix ''POST'' (heartbeat_doc @ silent_doc)
   \<and> decode sample_library (heartbeat_doc @ silent_doc) = Some (heartbeat_doc @ silent_doc)
   \<and> split_xml_documents (heartbeat_doc @ silent_doc) = [heartbeat_doc] @ silent_doc # []
   \<and> process_documents sample_handler sample_library [heartbeat_doc] (world_at noon)
       = (Inr (), world_at noon)
   \<and> fromstring sample_library silent_doc = Some silent_tree
   \<and> find_descendant ''alarmStatusInfo'' silent_tree
       = Some (Element ''alarmStatusInfo'' [] None [Element ''motionAlarm'' [] None []])
   \<and> elem_text (Element ''motionAlarm'' [] None []) = None
   \<and> peer_connected (world_at noon)
   \<and> handle_alarm sample_handler sample_library silent_tree (world_at noon) = (Inl AttributeError, world_at noon)
   \<and> process_request sample_handler sample_library (heartbeat_doc @ silent_doc) (world_at noon)
       = (Inr (), (world_at noon)\<lparr>sent := [''<error>Internal Server Error</error>'']\<rparr>)"
proof -
  let ?alarm = "Element ''motionAlarm'' [] None []"
  let ?info = "Element ''alarmStatusInfo'' [] None [?alarm]"
  have 1: "\<not> prefix ''POST'' (heartbeat_doc @ silent_doc)"
    by (simp add: doc_eval)
  have 2: "decode sample_library (heartbeat_doc @ silent_doc) = Some (heartbeat_doc @ silent_doc)"
    by (simp add: sample_library_def sample_decode_def doc_eval)
  have 3: "split_xml_documents (heartbeat_doc @ silent_doc) = [heartbeat_doc] @ silent_doc # []"
    by (simp add: doc_eval)
  have 4: "process_documents sample_handler sample_library [heartbeat_doc] (world_at noon)
       = (Inr (), world_at noon)"
    by (simp add: handler_eval doc_eval tree_eval)
  have 5: "fromstring sample_library silent_doc = Some silent_tree"
    by (simp add: sample_library_def sample_fromstring_def doc_eval)
  have 6: "find_descendant ''alarmStatusInfo'' silent_tree = Some ?info"
    by (simp add: tree_eval)
  have 7: "?alarm \<in> set (children ?info)" "elem_text ?alarm = None"
    by simp_all
  have 8: "peer_connected (world_at noon)" "sent (world_at noon) = []"
    by (simp_all add: world_at_def)
  show ?thesis
    using alarm_without_text [OF 1 2 3 4 5 6 7 8(1)] 1 2 3 4 5 6 7 8
    by simp
qed

end
